theory Spec2Isabelle
  imports Complex_Main "HOL-Library.AList"
begin

section \<open>Python values and errors\<close>

text \<open>
  The repository is Python 2 code (\<^verbatim>\<open>basil/qpwrap.py\<close>, \<^verbatim>\<open>basil/process.py\<close>).
  Every \<^verbatim>\<open>raise\<close> of the source, and every failure of a library call that a claim
  is about, is a value of \<open>error\<close>; a function that can fail returns
  \<open>error + 'a\<close> with \<open>Inl\<close> for the exception.
\<close>

datatype error =
    OSError string
  | RuntimeError string int
  | ValueError string
  | TypeError string
  | KeyError string
  | IndexError
  | ZeroDivisionError
  | IOError string

text \<open>
  The scalar values that occur as option values and arguments: \<^verbatim>\<open>None\<close>, booleans,
  integers and strings. Floats are left out here, since \<^verbatim>\<open>str\<close> of a float is not
  modelled; where the code handles numbers only through \<^verbatim>\<open>+\<close>, \<^verbatim>\<open>min\<close>,
  \<^verbatim>\<open>max\<close> and \<^verbatim>\<open>str\<close> they are a type parameter.
\<close>

datatype pyval = PyNone | PyBool bool | PyInt int | PyStr string

text \<open>Decimal rendering, as \<^verbatim>\<open>"%i" % n\<close> and \<^verbatim>\<open>str(n)\<close> give it for an integer.\<close>

definition digit_char :: "nat \<Rightarrow> char" where
  "digit_char d = ''0123456789'' ! d"

function str_nat :: "nat \<Rightarrow> string" where
  "str_nat n = (if n < 10 then [digit_char n] else str_nat (n div 10) @ [digit_char (n mod 10)])"
  by pat_completeness auto
termination
  by (relation "measure id") auto

declare str_nat.simps [simp del]

definition str_int :: "int \<Rightarrow> string" where
  "str_int i = (if i < 0 then CHR ''-'' # str_nat (nat (- i)) else str_nat (nat i))"

text \<open>The value of a decimal string, used to show that the rendering is injective.\<close>

definition digit_val :: "char \<Rightarrow> nat" where
  "digit_val c = of_char c - 48"

definition nat_of_str :: "string \<Rightarrow> nat" where
  "nat_of_str s = fold (\<lambda>c n. 10 * n + digit_val c) s 0"

text \<open>\<^verbatim>\<open>str(v)\<close>.\<close>

fun py_str :: "pyval \<Rightarrow> string" where
  "py_str PyNone = ''None''"
| "py_str (PyBool b) = (if b then ''True'' else ''False'')"
| "py_str (PyInt i) = str_int i"
| "py_str (PyStr s) = s"

text \<open>Truth value of \<^verbatim>\<open>v\<close> in a condition (\<^verbatim>\<open>if v:\<close>).\<close>

fun py_truthy :: "pyval \<Rightarrow> bool" where
  "py_truthy PyNone = False"
| "py_truthy (PyBool b) = b"
| "py_truthy (PyInt i) = (i \<noteq> 0)"
| "py_truthy (PyStr s) = (s \<noteq> [])"

text \<open>
  \<^verbatim>\<open>v == w\<close>. A boolean is an integer in Python (\<^verbatim>\<open>True == 1\<close>,
  \<^verbatim>\<open>False == 0\<close>); \<^verbatim>\<open>None\<close> and strings equal only themselves.
\<close>

fun py_as_int :: "pyval \<Rightarrow> int option" where
  "py_as_int (PyBool b) = Some (if b then 1 else 0)"
| "py_as_int (PyInt i) = Some i"
| "py_as_int _ = None"

fun py_eq :: "pyval \<Rightarrow> pyval \<Rightarrow> bool" where
  "py_eq PyNone w = (w = PyNone)"
| "py_eq (PyStr s) w = (w = PyStr s)"
| "py_eq v w = (py_as_int v \<noteq> None \<and> py_as_int v = py_as_int w)"

section \<open>Strings and the matrix text format\<close>

text \<open>
  The methods of Python 2 byte strings that the code uses, on \<open>string\<close>. White
  space is what \<^verbatim>\<open>str.isspace\<close> accepts: space, tab, line feed, vertical tab, form
  feed and carriage return.
\<close>

definition isspace :: "char \<Rightarrow> bool" where
  "isspace c = (c \<in> set [CHR 0x20, CHR 0x09, CHR 0x0A, CHR 0x0B, CHR 0x0C, CHR 0x0D])"

text \<open>\<^verbatim>\<open>s.strip()\<close>.\<close>

definition py_strip :: "string \<Rightarrow> string" where
  "py_strip s = rev (dropWhile isspace (rev (dropWhile isspace s)))"

text \<open>
  \<^verbatim>\<open>s.split()\<close>: the maximal runs of characters that are not white space. The
  first argument is the run read so far, reversed.
\<close>

fun py_split :: "string \<Rightarrow> string \<Rightarrow> string list" where
  "py_split acc [] = (if acc = [] then [] else [rev acc])"
| "py_split acc (c # cs) =
     (if isspace c then (if acc = [] then py_split [] cs else rev acc # py_split [] cs)
      else py_split (c # acc) cs)"

text \<open>
  \<^verbatim>\<open>s.splitlines()\<close>: a line ends at a line feed, a carriage return, or a carriage
  return followed by a line feed; no empty line is reported after the last line
  end. The first argument is the line read so far, reversed.
\<close>

fun splitlines_acc :: "string \<Rightarrow> string \<Rightarrow> string list" where
  "splitlines_acc acc [] = (if acc = [] then [] else [rev acc])"
| "splitlines_acc acc [c] =
     (if c = CHR 0x0A \<or> c = CHR 0x0D then [rev acc] else [rev (c # acc)])"
| "splitlines_acc acc (c # d # ds) =
     (if c = CHR 0x0A then rev acc # splitlines_acc [] (d # ds)
      else if c = CHR 0x0D then
        (if d = CHR 0x0A then rev acc # splitlines_acc [] ds
         else rev acc # splitlines_acc [] (d # ds))
      else splitlines_acc (c # acc) (d # ds))"

definition splitlines :: "string \<Rightarrow> string list" where
  "splitlines s = splitlines_acc [] s"

text \<open>\<^verbatim>\<open>sep.join(xs)\<close>.\<close>

fun join :: "string \<Rightarrow> string list \<Rightarrow> string" where
  "join sep [] = []"
| "join sep [x] = x"
| "join sep (x # y # ys) = x @ sep @ join sep (y # ys)"

text \<open>\<^verbatim>\<open>s.lower()\<close> in the C locale: the letters A to Z are mapped to a to z.\<close>

definition lower_char :: "char \<Rightarrow> char" where
  "lower_char c = (if 65 \<le> (of_char c :: nat) \<and> (of_char c :: nat) \<le> 90
                   then char_of ((of_char c :: nat) + 32) else c)"

definition py_lower :: "string \<Rightarrow> string" where
  "py_lower s = map lower_char s"

text \<open>
  \<^verbatim>\<open>matrix_to_text(mat)\<close>: the entries of a row joined by a space, the rows joined
  by a line feed. \<open>str_f\<close> is \<^verbatim>\<open>str\<close> on a matrix entry.
\<close>

definition matrix_to_text :: "('f \<Rightarrow> string) \<Rightarrow> 'f list list \<Rightarrow> string" where
  "matrix_to_text str_f mat = join [CHR 0x0A] (map (\<lambda>row. join '' '' (map str_f row)) mat)"

text \<open>
  The values of one line in \<^verbatim>\<open>text_to_matrix\<close>:
  \<^verbatim>\<open>line.split("#", 1)[0].strip().replace(",", " ").split()\<close>.
\<close>

definition line_vals :: "string \<Rightarrow> string list" where
  "line_vals line =
     py_split [] (map (\<lambda>c. if c = CHR '','' then CHR '' '' else c)
                      (py_strip (takeWhile (\<lambda>c. c \<noteq> CHR ''#'') line)))"

text \<open>
  The loop of \<^verbatim>\<open>text_to_matrix\<close> over the lines, with its variables \<^verbatim>\<open>ncols\<close>
  (initially \<open>-1\<close>) and \<^verbatim>\<open>fvals\<close>. \<open>float_of\<close> is \<^verbatim>\<open>float\<close> on a string, \<open>None\<close>
  when it raises. The column check comes before the numeric check, and the first
  failing line raises.
\<close>

fun parse_lines ::
  "(string \<Rightarrow> 'f option) \<Rightarrow> int \<Rightarrow> 'f list list \<Rightarrow> string list \<Rightarrow> error + 'f list list" where
  "parse_lines float_of ncols fvals [] = Inr fvals"
| "parse_lines float_of ncols fvals (line # lines) =
     (let vals = line_vals line in
      if vals = [] then parse_lines float_of ncols fvals lines
      else if \<not> ncols < 0 \<and> int (length vals) \<noteq> ncols then
        Inl (ValueError ''File must contain a matrix of numbers with fixed size (rows/columns)'')
      else
        (case find (\<lambda>v. float_of v = None) vals of
           Some v \<Rightarrow> Inl (ValueError (''Non-numeric value '' @ [CHR 0x27] @ v @ [CHR 0x27] @ '' found in matrix text''))
         | None \<Rightarrow>
             parse_lines float_of (if ncols < 0 then int (length vals) else ncols)
               (fvals @ [map (\<lambda>v. the (float_of v)) vals]) lines))"

definition text_to_matrix :: "(string \<Rightarrow> 'f option) \<Rightarrow> string \<Rightarrow> error + 'f list list" where
  "text_to_matrix float_of text = parse_lines float_of (- 1) [] (splitlines text)"

text \<open>
  The rows of a text as \<^verbatim>\<open>text_to_matrix\<close> reads them: the values of the lines
  that have any, after comments are cut off.
\<close>

definition token_rows :: "string \<Rightarrow> string list list" where
  "token_rows text = filter (\<lambda>vals. vals \<noteq> []) (map line_vals (splitlines text))"

text \<open>
  A string that \<^verbatim>\<open>text_to_matrix\<close> reads back as one value: not empty, and free of
  white space, commas and the comment sign.
\<close>

definition clean_token :: "string \<Rightarrow> bool" where
  "clean_token t = (t \<noteq> [] \<and> (\<forall>c \<in> set t. \<not> isspace c \<and> c \<noteq> CHR ''#'' \<and> c \<noteq> CHR '',''))"

section \<open>Sandboxed image: extension inference\<close>

text \<open>
  The attributes of \<^verbatim>\<open>Image\<close> that the code under verification reads or writes.
  The image data itself (\<^verbatim>\<open>_data\<close>, \<^verbatim>\<open>nii\<close>) stays outside the record: it is
  reached through the environment of the workspace below.
\<close>

record image =
  iname :: string
  ipath :: string
  fpath :: string
  ext :: string
  ext_matches :: "string list"

text \<open>The ranked candidates: \<^verbatim>\<open>exts = ["", ".nii", ".nii.gz"]\<close>.\<close>

definition exts :: "string list" where
  "exts = ['''', ''.nii'', ''.nii.gz'']"

text \<open>
  \<^verbatim>\<open>Image._guess_extension\<close>. The file system is the predicate \<open>exists\<close>
  (\<^verbatim>\<open>os.path.exists\<close>); \<^verbatim>\<open>"%s%s" % (self.ipath, ext)\<close> is concatenation. The loop
  appends the matching candidates in order; \<^verbatim>\<open>self.ext\<close> is assigned only when
  the list of matches is not empty.
\<close>

definition guess_extension :: "(string \<Rightarrow> bool) \<Rightarrow> image \<Rightarrow> image" where
  "guess_extension exists img =
     (let matches = filter (\<lambda>e. exists (ipath img @ e)) exts
      in case matches of
           [] \<Rightarrow> img\<lparr>ext_matches := matches\<rparr>
         | m # _ \<Rightarrow> img\<lparr>ext_matches := matches, ext := m\<rparr>)"

text \<open>
  Modelled from the spec: the constructor of \<^verbatim>\<open>Image\<close> is not among the source
  files (the file starts inside the class). The docstring of \<^verbatim>\<open>_guess_extension\<close>
  and the spec name \<^verbatim>\<open>.nii.gz\<close> as the default extension, which the constructor
  has to put into \<^verbatim>\<open>self.ext\<close> before it calls \<^verbatim>\<open>_guess_extension\<close>.
\<close>

definition default_ext :: string where
  "default_ext = ''.nii.gz''"

section \<open>Execution workspace\<close>

text \<open>
  \<^verbatim>\<open>os.path.join(a, b)\<close> and \<^verbatim>\<open>os.path.basename(p)\<close> of \<^verbatim>\<open>posixpath\<close>.
\<close>

definition path_join :: "string \<Rightarrow> string \<Rightarrow> string" where
  "path_join a b =
     (if b \<noteq> [] \<and> hd b = CHR ''/'' then b
      else if a = [] \<or> last a = CHR ''/'' then a @ b
      else a @ ''/'' @ b)"

definition basename :: "string \<Rightarrow> string" where
  "basename p = rev (takeWhile (\<lambda>c. c \<noteq> CHR ''/'') (rev p))"

text \<open>
  The attributes of \<^verbatim>\<open>Workspace\<close>. The log sink and the echo/debug flags are left
  out: what is written to the log is not part of the state any claim is about.
\<close>

record workspace =
  workdir :: string
  path :: "string list"

text \<open>
  The process state the workspace acts on: the current working directory
  (\<^verbatim>\<open>os.getcwd\<close>, \<^verbatim>\<open>os.chdir\<close>) and the file system. \<^verbatim>\<open>os.chdir\<close> is the
  assignment of \<open>cwd\<close>; a failure of \<^verbatim>\<open>os.chdir\<close> itself is not modelled.
\<close>

record 'fs world =
  cwd :: string
  fs :: 'fs

text \<open>
  What the code calls outside the repository, as functions of the file system
  (\<open>'a\<close> is the type of array data, \<open>'f\<close> the type of floats):
  \<^item> \<open>is_executable f c p\<close>: \<^verbatim>\<open>os.path.isfile(p) and os.access(p, os.X_OK)\<close> with
    current directory \<open>c\<close>;
  \<^item> \<open>shlex_split\<close>: \<^verbatim>\<open>shlex.split\<close>, which raises on unbalanced quotes;
  \<^item> \<open>popen_wait argv c f\<close>: \<^verbatim>\<open>subprocess.Popen(argv, ...).wait()\<close> in directory
    \<open>c\<close>: an \<^verbatim>\<open>OSError\<close> when the program cannot be started, else the exit status,
    and the file system the program leaves behind;
  \<^item> \<open>get_files f d\<close>: the dictionary file name to modification time that
    \<^verbatim>\<open>_get_files\<close> collects by walking the working directory \<open>d\<close>, in the order
    in which the dictionary is iterated;
  \<^item> \<open>re_match p s\<close>: \<^verbatim>\<open>re.match(p, s)\<close> is not \<^verbatim>\<open>None\<close> (\<open>p\<close> a valid pattern);
  \<^item> \<open>load_image f c n\<close>: \<^verbatim>\<open>Image(n)\<close>, \<open>None\<close> when the constructor raises;
  \<^item> \<open>read_text_file f c n\<close>: \<^verbatim>\<open>_read_text_file(n)\<close>;
  \<^item> \<open>save_temp_image x d f\<close>: a fresh temporary file in directory \<open>d\<close> and
    \<^verbatim>\<open>Image(tempname, data=x, save=True)\<close>;
  \<^item> \<open>image_data f i\<close>: \<^verbatim>\<open>i.data()\<close>;
  \<^item> \<open>write_text p s f\<close>: \<^verbatim>\<open>open(p, "w").write(s)\<close>;
  \<^item> \<open>str_float\<close>, \<open>float_of\<close>: \<^verbatim>\<open>str\<close> on a float and \<^verbatim>\<open>float\<close> on a string;
  \<^item> \<open>linalg_inv\<close>: \<^verbatim>\<open>np.linalg.inv\<close>, which raises on a singular matrix.
\<close>

record ('fs, 'a, 'f) env =
  is_executable :: "'fs \<Rightarrow> string \<Rightarrow> string \<Rightarrow> bool"
  shlex_split :: "string \<Rightarrow> error + string list"
  popen_wait :: "string list \<Rightarrow> string \<Rightarrow> 'fs \<Rightarrow> (error + int) \<times> 'fs"
  get_files :: "'fs \<Rightarrow> string \<Rightarrow> (string \<times> real) list"
  re_match :: "string \<Rightarrow> string \<Rightarrow> bool"
  load_image :: "'fs \<Rightarrow> string \<Rightarrow> string \<Rightarrow> image option"
  read_text_file :: "'fs \<Rightarrow> string \<Rightarrow> string \<Rightarrow> error + string"
  save_temp_image :: "'a \<Rightarrow> string \<Rightarrow> 'fs \<Rightarrow> image \<times> 'fs"
  image_data :: "'fs \<Rightarrow> image \<Rightarrow> 'a"
  write_text :: "string \<Rightarrow> string \<Rightarrow> 'fs \<Rightarrow> 'fs"
  str_float :: "'f \<Rightarrow> string"
  float_of :: "string \<Rightarrow> 'f option"
  linalg_inv :: "'f list list \<Rightarrow> error + 'f list list"

text \<open>\<^verbatim>\<open>Workspace._find\<close>: the first directory of the search path that holds the
  program as an executable file wins; else the bare name.\<close>

fun find_prog :: "(string \<Rightarrow> bool) \<Rightarrow> string list \<Rightarrow> string \<Rightarrow> string" where
  "find_prog isx [] cmd = cmd"
| "find_prog isx (dname # dnames) cmd =
     (let ex = path_join dname cmd in if isx ex then ex else find_prog isx dnames cmd)"

text \<open>
  The arguments of \<^verbatim>\<open>run\<close>: a string, or a dictionary rendered as
  \<^verbatim>\<open>" key value"\<close> pairs (\<^verbatim>\<open>cmd += " %s " % arg\<close>, then \<^verbatim>\<open>str(value)\<close> unless the
  value is \<^verbatim>\<open>None\<close> or the empty string).
\<close>

datatype args = ArgStr string | ArgDict "(string \<times> pyval) list"

fun dict_args :: "string \<Rightarrow> (string \<times> pyval) list \<Rightarrow> string" where
  "dict_args cmd [] = cmd"
| "dict_args cmd ((arg, val) # rest) =
     dict_args (cmd @ '' '' @ arg @ '' '' @
                (if val \<noteq> PyNone \<and> val \<noteq> PyStr [] then py_str val else [])) rest"

fun build_cmd :: "string \<Rightarrow> args \<Rightarrow> string" where
  "build_cmd cmd (ArgStr a) = cmd @ '' '' @ a"
| "build_cmd cmd (ArgDict d) = dict_args cmd d"

subsection \<open>Recovering the outputs of a command\<close>

text \<open>
  \<^verbatim>\<open>Workspace._changed_files(pre, post)\<close>: the files of \<open>post\<close> that are not in
  \<open>pre\<close> or whose modification time is greater than in \<open>pre\<close>. A dictionary is
  the list of its items in iteration order; \<^verbatim>\<open>pre[f]\<close> is \<open>map_of pre f\<close>.
\<close>

fun changed_files :: "(string \<times> real) list \<Rightarrow> (string \<times> real) list \<Rightarrow> string list" where
  "changed_files pre [] = []"
| "changed_files pre ((f, mtime) # post) =
     (case map_of pre f of
        None \<Rightarrow> f # changed_files pre post
      | Some t \<Rightarrow> if mtime > t then f # changed_files pre post else changed_files pre post)"

text \<open>
  The inner loop of \<^verbatim>\<open>_get_return_files\<close>: \<^verbatim>\<open>for exp in expected: if re.match(exp,
  fname): return_files.append(fname)\<close>. A pattern is a string; \<open>None\<close> is Python's
  \<^verbatim>\<open>None\<close>, which \<^verbatim>\<open>flirt\<close> puts into the list when only \<^verbatim>\<open>output_invmat\<close> is
  given, and on which \<^verbatim>\<open>re.match\<close> raises \<^verbatim>\<open>TypeError\<close>.
\<close>

fun match_expected :: "(string \<Rightarrow> string \<Rightarrow> bool) \<Rightarrow> string option list \<Rightarrow> string \<Rightarrow> error + string list" where
  "match_expected m [] fname = Inr []"
| "match_expected m (None # pats) fname = Inl (TypeError ''first argument must be string or compiled pattern'')"
| "match_expected m (Some pat # pats) fname =
     (case match_expected m pats fname of
        Inl e \<Rightarrow> Inl e
      | Inr r \<Rightarrow> Inr (if m pat fname then fname # r else r))"

text \<open>The outer loop, \<^verbatim>\<open>for fname in post\<close>.\<close>

fun expected_files :: "(string \<Rightarrow> string \<Rightarrow> bool) \<Rightarrow> string option list \<Rightarrow> string list \<Rightarrow> error + string list" where
  "expected_files m pats [] = Inr []"
| "expected_files m pats (fname # post) =
     (case match_expected m pats fname of
        Inl e \<Rightarrow> Inl e
      | Inr r \<Rightarrow> (case expected_files m pats post of
                   Inl e \<Rightarrow> Inl e
                 | Inr rs \<Rightarrow> Inr (r @ rs)))"

text \<open>The list \<^verbatim>\<open>return_files\<close>: \<^verbatim>\<open>if expected: ... else: ...\<close>.\<close>

definition return_files ::
  "(string \<Rightarrow> string \<Rightarrow> bool) \<Rightarrow> (string \<times> real) list \<Rightarrow> (string \<times> real) list \<Rightarrow>
   string option list \<Rightarrow> error + string list" where
  "return_files m pre post expected =
     (if expected \<noteq> [] then expected_files m expected (map fst post)
      else Inr (changed_files pre post))"

text \<open>
  The second loop of \<^verbatim>\<open>_get_return_files\<close>: each file is loaded as an image; one
  that is not an image is read as text and stored under its base name; one that
  cannot be read either re-raises.
\<close>

fun classify_files ::
  "(string \<Rightarrow> image option) \<Rightarrow> (string \<Rightarrow> error + string) \<Rightarrow>
   image list \<Rightarrow> (string \<times> string) list \<Rightarrow> string list \<Rightarrow>
   error + (image list \<times> (string \<times> string) list)" where
  "classify_files img rd imgs text [] = Inr (imgs, text)"
| "classify_files img rd imgs text (fname # fnames) =
     (case img fname of
        Some i \<Rightarrow> classify_files img rd (imgs @ [i]) text fnames
      | None \<Rightarrow>
          (case rd fname of
             Inl e \<Rightarrow> Inl e
           | Inr s \<Rightarrow> classify_files img rd imgs (AList.update (basename fname) s text) fnames))"

definition get_return_files ::
  "('fs, 'a, 'f) env \<Rightarrow> 'fs world \<Rightarrow> (string \<times> real) list \<Rightarrow> (string \<times> real) list \<Rightarrow>
   string option list \<Rightarrow> error + (image list \<times> (string \<times> string) list)" where
  "get_return_files env w pre post expected =
     (case return_files (re_match env) pre post expected of
        Inl e \<Rightarrow> Inl e
      | Inr files \<Rightarrow>
          classify_files (load_image env (fs w) (cwd w)) (read_text_file env (fs w) (cwd w))
            [] [] files)"

subsection \<open>Running a program\<close>

text \<open>
  What a method of the workspace returns: Python objects, so that a list, a
  tuple and a bare value are different results. \<open>'a\<close> is the type of array data,
  \<open>'f\<close> the type of matrix entries.
\<close>

datatype ('a, 'f) pyobj =
    OImage image
  | OStr string
  | OArray 'a
  | OMatrix "'f list list"
  | OList "('a, 'f) pyobj list"
  | OTuple "('a, 'f) pyobj list"
  | ODict "(string \<times> ('a, 'f) pyobj) list"

text \<open>
  The body of the \<^verbatim>\<open>try\<close> block of \<^verbatim>\<open>Workspace.run\<close>, after \<^verbatim>\<open>os.chdir(self.workdir)\<close>.
  The statement that ends it is \<^verbatim>\<open>return imgs, text\<close>.
\<close>

definition run_body ::
  "('fs, 'a, 'f) env \<Rightarrow> workspace \<Rightarrow> 'fs world \<Rightarrow> string \<Rightarrow> args \<Rightarrow> string option list \<Rightarrow>
   (error + ('a, 'f) pyobj) \<times> 'fs world" where
  "run_body env wsp w prog args expected =
     (let cmd = build_cmd (find_prog (is_executable env (fs w) (cwd w)) (path wsp) prog) args;
          pre_run_files = get_files env (fs w) (workdir wsp)
      in case shlex_split env cmd of
           Inl e \<Rightarrow> (Inl e, w)
         | Inr argv \<Rightarrow>
             (case popen_wait env argv (cwd w) (fs w) of
                (Inl e, fs') \<Rightarrow> (Inl e, w\<lparr>fs := fs'\<rparr>)
              | (Inr retcode, fs') \<Rightarrow>
                  if retcode \<noteq> 0 then (Inl (RuntimeError cmd retcode), w\<lparr>fs := fs'\<rparr>)
                  else
                    (let w' = w\<lparr>fs := fs'\<rparr>;
                         post_run_files = get_files env fs' (workdir wsp)
                     in case get_return_files env w' pre_run_files post_run_files expected of
                          Inl e \<Rightarrow> (Inl e, w')
                        | Inr (imgs, text) \<Rightarrow>
                            (Inr (OTuple [OList (map OImage imgs),
                                          ODict (map (\<lambda>(k, v). (k, OStr v)) text)]), w'))))"

text \<open>
  \<^verbatim>\<open>Workspace.run\<close>: \<^verbatim>\<open>cwd = os.getcwd()\<close>, then \<^verbatim>\<open>try: os.chdir(self.workdir); ...
  finally: os.chdir(cwd)\<close>. The \<^verbatim>\<open>finally\<close> clause runs whether the body returns
  or raises.
\<close>

definition run ::
  "('fs, 'a, 'f) env \<Rightarrow> workspace \<Rightarrow> 'fs world \<Rightarrow> string \<Rightarrow> args \<Rightarrow> string option list \<Rightarrow>
   (error + ('a, 'f) pyobj) \<times> 'fs world" where
  "run env wsp w prog args expected =
     (let cwd0 = cwd w;
          (r, w') = run_body env wsp (w\<lparr>cwd := workdir wsp\<rparr>) prog args expected
      in (r, w'\<lparr>cwd := cwd0\<rparr>))"


section \<open>Tool invocation wrappers\<close>

text \<open>
  The three representations of an image that a wrapper accepts and returns
  (\<^verbatim>\<open>Workspace.FILENAME\<close>, \<^verbatim>\<open>IMAGE\<close>, \<^verbatim>\<open>NUMPY\<close>), and an input as the caller gives
  it; \<open>InOther\<close> is a value of any other type.
\<close>

datatype itype = FILENAME | IMAGE | NUMPY

datatype 'a input = InImage image | InName string | InArray 'a | InOther

text \<open>
  \<^verbatim>\<open>Workspace._input_img\<close>. For a file name \<^verbatim>\<open>Image(img)\<close> is built in the current
  directory of the caller; the exception of a failing constructor is not known
  from the sources and is \<open>IOError\<close> here. An array is saved to a temporary file of
  the working directory.
\<close>

definition input_img ::
  "('fs, 'a, 'f) env \<Rightarrow> workspace \<Rightarrow> 'fs world \<Rightarrow> 'a input \<Rightarrow> (error + image \<times> itype) \<times> 'fs world" where
  "input_img env wsp w img =
     (case img of
        InImage i \<Rightarrow> (Inr (i, IMAGE), w)
      | InName n \<Rightarrow>
          (case load_image env (fs w) (cwd w) n of
             None \<Rightarrow> (Inl (IOError n), w)
           | Some i \<Rightarrow> (Inr (i, FILENAME), w))
      | InArray x \<Rightarrow>
          (let (i, f') = save_temp_image env x (workdir wsp) (fs w)
           in (Inr (i, NUMPY), w\<lparr>fs := f'\<rparr>))
      | InOther \<Rightarrow>
          (Inl (TypeError ''Image data not recognized - must be filename, Image instance or Numpy array''), w))"

text \<open>
  \<^verbatim>\<open>Workspace._output_img\<close>: the image as an \<^verbatim>\<open>Image\<close>, as its file path, or as its
  data. The attribute access fails on an object that is not an image.
\<close>

fun output_img :: "('fs, 'a, 'f) env \<Rightarrow> 'fs \<Rightarrow> itype \<Rightarrow> ('a, 'f) pyobj \<Rightarrow> error + ('a, 'f) pyobj" where
  "output_img env f IMAGE img = Inr img"
| "output_img env f FILENAME (OImage i) = Inr (OStr (fpath i))"
| "output_img env f NUMPY (OImage i) = Inr (OArray (image_data env f i))"
| "output_img env f ity img = Inl (TypeError ''object is not an image'')"

text \<open>\<^verbatim>\<open>[self._output_img(i, itype) for i in imgs]\<close>: the first failure raises.\<close>

fun output_imgs ::
  "('fs, 'a, 'f) env \<Rightarrow> 'fs \<Rightarrow> itype \<Rightarrow> ('a, 'f) pyobj list \<Rightarrow> error + ('a, 'f) pyobj list" where
  "output_imgs env f ity [] = Inr []"
| "output_imgs env f ity (i # imgs) =
     (case output_img env f ity i of
        Inl e \<Rightarrow> Inl e
      | Inr x \<Rightarrow> (case output_imgs env f ity imgs of Inl e \<Rightarrow> Inl e | Inr xs \<Rightarrow> Inr (x # xs)))"

text \<open>
  The keyword arguments the wrappers pop, \<open>None\<close> when the caller does not give
  one: \<^verbatim>\<open>output_name\<close>, \<^verbatim>\<open>args\<close>, \<^verbatim>\<open>mask\<close>, \<^verbatim>\<open>brain\<close>, \<^verbatim>\<open>output_mat\<close>,
  \<^verbatim>\<open>output_invmat\<close>.
\<close>

record kwargs =
  output_name :: "string option"
  extra_args :: "string option"
  mask_kw :: "bool option"
  brain_kw :: "bool option"
  output_mat :: "string option"
  output_invmat :: "string option"

text \<open>\<^verbatim>\<open>Workspace._get_std\<close>: the output name (the image name plus the suffix of
  the tool unless given) and the extra arguments.\<close>

definition get_std :: "image \<Rightarrow> string \<Rightarrow> kwargs \<Rightarrow> string \<times> string" where
  "get_std img suffix kw =
     (case output_name kw of None \<Rightarrow> iname img @ suffix | Some n \<Rightarrow> n,
      case extra_args kw of None \<Rightarrow> [] | Some a \<Rightarrow> a)"

text \<open>
  Python's own operations on a returned object: unpacking into two names
  (\<^verbatim>\<open>imgs, files = ...\<close>), iteration, \<^verbatim>\<open>x[0]\<close>, \<^verbatim>\<open>d[key]\<close> (the key may be
  \<^verbatim>\<open>None\<close>) and \<^verbatim>\<open>"%s" % x\<close> for a string or \<^verbatim>\<open>None\<close>.
\<close>

fun py_iter :: "('a, 'f) pyobj \<Rightarrow> error + ('a, 'f) pyobj list" where
  "py_iter (OList xs) = Inr xs"
| "py_iter (OTuple xs) = Inr xs"
| "py_iter x = Inl (TypeError ''object is not iterable'')"

definition unpack2 :: "('a, 'f) pyobj \<Rightarrow> error + ('a, 'f) pyobj \<times> ('a, 'f) pyobj" where
  "unpack2 x =
     (case py_iter x of
        Inl e \<Rightarrow> Inl e
      | Inr xs \<Rightarrow>
          (case xs of
             [a, b] \<Rightarrow> Inr (a, b)
           | _ \<Rightarrow> Inl (ValueError ''wrong number of values to unpack'')))"

definition getitem0 :: "('a, 'f) pyobj \<Rightarrow> error + ('a, 'f) pyobj" where
  "getitem0 x =
     (case py_iter x of
        Inl e \<Rightarrow> Inl e
      | Inr xs \<Rightarrow> (case xs of [] \<Rightarrow> Inl IndexError | y # _ \<Rightarrow> Inr y))"

fun dict_get :: "('a, 'f) pyobj \<Rightarrow> string option \<Rightarrow> error + ('a, 'f) pyobj" where
  "dict_get (ODict d) (Some k) = (case map_of d k of None \<Rightarrow> Inl (KeyError k) | Some v \<Rightarrow> Inr v)"
| "dict_get (ODict d) None = Inl (KeyError ''None'')"
| "dict_get x k = Inl (TypeError ''object is not subscriptable'')"

fun fmt_opt :: "string option \<Rightarrow> string" where
  "fmt_opt None = ''None''"
| "fmt_opt (Some s) = s"

subsection \<open>Brain extraction\<close>

text \<open>
  \<^verbatim>\<open>Workspace.bet\<close>. It ends with \<^verbatim>\<open>if len(ret) == 1: return ret[0]\<close> and
  \<^verbatim>\<open>return tuple(ret)\<close>.
\<close>

definition bet_return :: "('a, 'f) pyobj list \<Rightarrow> ('a, 'f) pyobj" where
  "bet_return ret = (if length ret = 1 then ret ! 0 else OTuple ret)"

definition bet ::
  "('fs, 'a, 'f) env \<Rightarrow> workspace \<Rightarrow> 'fs world \<Rightarrow> 'a input \<Rightarrow> kwargs \<Rightarrow>
   (error + ('a, 'f) pyobj) \<times> 'fs world" where
  "bet env wsp w img kw =
     (case input_img env wsp w img of
        (Inl e, w1) \<Rightarrow> (Inl e, w1)
      | (Inr (im, ity), w1) \<Rightarrow>
          (let (oname, a0) = get_std im ''_bet'' kw;
               msk = (case mask_kw kw of None \<Rightarrow> False | Some b \<Rightarrow> b);
               brn = (case brain_kw kw of None \<Rightarrow> True | Some b \<Rightarrow> b);
               a1 = ipath im @ '' '' @ oname @ '' '' @ a0;
               a2 = (if msk then a1 @ '' -m'' else a1);
               a3 = (if \<not> brn then a2 @ '' -n'' else a2)
           in case run env wsp w1 ''bet'' (ArgStr a3) [Some oname, Some (oname @ ''_mask'')] of
                (Inl e, w2) \<Rightarrow> (Inl e, w2)
              | (Inr r, w2) \<Rightarrow>
                  (case unpack2 r of
                     Inl e \<Rightarrow> (Inl e, w2)
                   | Inr (imgs, files) \<Rightarrow>
                       (case py_iter imgs of
                          Inl e \<Rightarrow> (Inl e, w2)
                        | Inr items \<Rightarrow>
                            (case output_imgs env (fs w2) ity items of
                               Inl e \<Rightarrow> (Inl e, w2)
                             | Inr ret \<Rightarrow> (Inr (bet_return ret), w2))))))"

subsection \<open>Model fitting\<close>

text \<open>
  The body of the loop over the options in \<^verbatim>\<open>Workspace.fabber\<close>:
  \<^verbatim>\<open>if v == "" or v == True: option_args += " --%s" % k\<close>,
  \<^verbatim>\<open>elif v: option_args += " --%s=%s" % (k, str(v))\<close>.
\<close>

definition render_option :: "string \<Rightarrow> pyval \<Rightarrow> string" where
  "render_option k v =
     (if py_eq v (PyStr []) \<or> py_eq v (PyBool True) then '' --'' @ k
      else if py_truthy v then '' --'' @ k @ ''='' @ py_str v
      else [])"

text \<open>The loop: the options are the items of the dictionary in iteration order.\<close>

fun option_args :: "(string \<times> pyval) list \<Rightarrow> string" where
  "option_args [] = []"
| "option_args ((k, v) # opts) = render_option k v @ option_args opts"

text \<open>The option dictionary of \<^verbatim>\<open>Workspace.fabber\<close>, with the fixed entries set.\<close>

definition fabber_options ::
  "(string \<times> pyval) list \<Rightarrow> image \<Rightarrow> image \<Rightarrow> string \<Rightarrow> bool \<Rightarrow> (string \<times> pyval) list" where
  "fabber_options opts im mk oname overwrite =
     (let o1 = AList.update ''data'' (PyStr (ipath im)) opts;
          o2 = AList.update ''mask'' (PyStr (ipath mk)) o1;
          o3 = AList.update ''output'' (PyStr oname) o2;
          o4 = AList.update ''save-mvn'' (PyStr []) o3
      in if overwrite then AList.update ''overwrite'' (PyStr []) o4 else o4)"

definition fabber ::
  "('fs, 'a, 'f) env \<Rightarrow> workspace \<Rightarrow> 'fs world \<Rightarrow> string \<Rightarrow> 'a input \<Rightarrow> 'a input \<Rightarrow>
   (string \<times> pyval) list \<Rightarrow> bool \<Rightarrow> kwargs \<Rightarrow> (error + ('a, 'f) pyobj) \<times> 'fs world" where
  "fabber env wsp w model_group img msk opts overwrite kw =
     (case input_img env wsp w img of
        (Inl e, w1) \<Rightarrow> (Inl e, w1)
      | (Inr (im, ity), w1) \<Rightarrow>
          (case input_img env wsp w1 msk of
             (Inl e, w2) \<Rightarrow> (Inl e, w2)
           | (Inr (mk, mty), w2) \<Rightarrow>
               (let (oname, extra) = get_std im ''_fabber'' kw;
                    a = option_args (fabber_options opts im mk oname overwrite) @ '' '' @ extra
                in case run env wsp w2 (''fabber_'' @ py_lower model_group) (ArgStr a)
                          [Some (oname @ ''/finalMVN'')] of
                     (Inl e, w3) \<Rightarrow> (Inl e, w3)
                   | (Inr r, w3) \<Rightarrow>
                       (case unpack2 r of
                          Inl e \<Rightarrow> (Inl e, w3)
                        | Inr (imgs, files) \<Rightarrow>
                            (case getitem0 imgs of
                               Inl e \<Rightarrow> (Inl e, w3)
                             | Inr i0 \<Rightarrow> (output_img env (fs w3) ity i0, w3))))))"

subsection \<open>Linear registration\<close>

text \<open>\<^verbatim>\<open>text_to_matrix(files[output_mat])\<close>.\<close>

definition flirt_matrix ::
  "('fs, 'a, 'f) env \<Rightarrow> ('a, 'f) pyobj \<Rightarrow> string option \<Rightarrow> error + 'f list list" where
  "flirt_matrix env files omat =
     (case dict_get files omat of
        Inl e \<Rightarrow> Inl e
      | Inr v \<Rightarrow>
          (case v of
             OStr s \<Rightarrow> text_to_matrix (float_of env) s
           | _ \<Rightarrow> Inl (TypeError ''object is not a string'')))"

text \<open>
  The end of \<^verbatim>\<open>Workspace.flirt\<close>, from \<^verbatim>\<open>ret = [self._output_img(imgs[0], itype),]\<close>
  on. The last statements are \<^verbatim>\<open>if len(ret) == 1: return ret\<close> and
  \<^verbatim>\<open>return tuple(ret)\<close>.
\<close>

definition flirt_return :: "('a, 'f) pyobj list \<Rightarrow> ('a, 'f) pyobj" where
  "flirt_return ret = (if length ret = 1 then OList ret else OTuple ret)"

definition flirt_result ::
  "('fs, 'a, 'f) env \<Rightarrow> workspace \<Rightarrow> 'fs world \<Rightarrow> itype \<Rightarrow> kwargs \<Rightarrow>
   ('a, 'f) pyobj \<Rightarrow> ('a, 'f) pyobj \<Rightarrow> (error + ('a, 'f) pyobj) \<times> 'fs world" where
  "flirt_result env wsp w ity kw imgs files =
     (case getitem0 imgs of
        Inl e \<Rightarrow> (Inl e, w)
      | Inr i0 \<Rightarrow>
          (case output_img env (fs w) ity i0 of
             Inl e \<Rightarrow> (Inl e, w)
           | Inr o0 \<Rightarrow>
               (case (if output_mat kw \<noteq> None
                      then (case flirt_matrix env files (output_mat kw) of
                              Inl e \<Rightarrow> Inl e
                            | Inr m \<Rightarrow> Inr [o0, OMatrix m])
                      else Inr [o0]) of
                  Inl e \<Rightarrow> (Inl e, w)
                | Inr ret \<Rightarrow>
                    (case output_invmat kw of
                       None \<Rightarrow> (Inr (flirt_return ret), w)
                     | Some invname \<Rightarrow>
                         (case flirt_matrix env files (output_mat kw) of
                            Inl e \<Rightarrow> (Inl e, w)
                          | Inr m \<Rightarrow>
                              (case linalg_inv env m of
                                 Inl e \<Rightarrow> (Inl e, w)
                               | Inr invmat \<Rightarrow>
                                   (let w' = w\<lparr>fs := write_text env (path_join (workdir wsp) invname)
                                                       (matrix_to_text (str_float env) invmat) (fs w)\<rparr>
                                    in (Inr (flirt_return (ret @ [OMatrix invmat])), w'))))))))"

definition flirt ::
  "('fs, 'a, 'f) env \<Rightarrow> workspace \<Rightarrow> 'fs world \<Rightarrow> 'a input \<Rightarrow> 'a input \<Rightarrow> kwargs \<Rightarrow>
   (error + ('a, 'f) pyobj) \<times> 'fs world" where
  "flirt env wsp w img ref kw =
     (case input_img env wsp w img of
        (Inl e, w1) \<Rightarrow> (Inl e, w1)
      | (Inr (im, ity), w1) \<Rightarrow>
          (case input_img env wsp w1 ref of
             (Inl e, w2) \<Rightarrow> (Inl e, w2)
           | (Inr (rf, rty), w2) \<Rightarrow>
               (let (oname, a0) = get_std im ''_reg'' kw;
                    a1 = ''-in '' @ ipath im @ '' -ref '' @ ipath rf @ '' -out '' @ oname @ '' '' @ a0;
                    mats = (output_mat kw \<noteq> None \<or> output_invmat kw \<noteq> None);
                    a2 = (if mats then a1 @ '' -omat '' @ fmt_opt (output_mat kw) else a1);
                    expected = (if mats then [Some oname, output_mat kw] else [Some oname])
                in case run env wsp w2 ''flirt'' (ArgStr a2) expected of
                     (Inl e, w3) \<Rightarrow> (Inl e, w3)
                   | (Inr r, w3) \<Rightarrow>
                       (case unpack2 r of
                          Inl e \<Rightarrow> (Inl e, w3)
                        | Inr (imgs, files) \<Rightarrow> flirt_result env wsp w3 ity kw imgs files))))"

section \<open>Step sequencer\<close>

text \<open>
  Modelled from the spec: the status values of the \<^verbatim>\<open>Process\<close> base class
  (\<^verbatim>\<open>quantiphyse.processes\<close>, not among the source files), which the spec lists as
  PENDING, RUNNING, SUCCEEDED, FAILED and CANCELLED.
\<close>

datatype status = PENDING | RUNNING | SUCCEEDED | FAILED | CANCELLED

text \<open>
  The value of an option of the fitting program: a scalar, an image, or the
  table of the \<^verbatim>\<open>output-rename\<close> option. The option dictionary is the list of its
  items; an assignment \<^verbatim>\<open>options[k] = v\<close> is \<open>AList.update k v\<close>.
\<close>

datatype optval = Scalar pyval | ImageVal image | Table "(string \<times> string) list"

type_synonym options = "(string \<times> optval) list"

subsection \<open>Label durations and inversion times\<close>

text \<open>
  The entries of \<^verbatim>\<open>self.struc\<close> that \<^verbatim>\<open>BasilProcess.run\<close> reads, \<open>None\<close> when the
  key is absent. \<open>'n\<close> is the type of the numbers.
\<close>

record 'n struc =
  casl :: "bool option"
  taus :: "'n list option"

text \<open>
  \<^verbatim>\<open>for idx, tau in enumerate(taus): options["tau%i" % (idx+1)] = str(tau)\<close>;
  \<open>str_n\<close> is \<^verbatim>\<open>str\<close> on a number.
\<close>

fun tau_options :: "('n \<Rightarrow> string) \<Rightarrow> nat \<Rightarrow> 'n list \<Rightarrow> options \<Rightarrow> options" where
  "tau_options str_n idx [] opts = opts"
| "tau_options str_n idx (tau # rest) opts =
     tau_options str_n (idx + 1) rest
       (AList.update (''tau'' @ str_nat (idx + 1)) (Scalar (PyStr (str_n tau))) opts)"

text \<open>
  \<^verbatim>\<open>for idx, ti in enumerate(self.asldata.tis): if self.struc["casl"]: ti +=
  taus[idx]; options["ti%i" % (idx+1)] = str(ti)\<close>. The index raises when there
  are fewer label durations than inversion times.
\<close>

fun ti_options ::
  "('n::plus \<Rightarrow> string) \<Rightarrow> bool \<Rightarrow> 'n list \<Rightarrow> nat \<Rightarrow> 'n list \<Rightarrow> options \<Rightarrow> error + options" where
  "ti_options str_n c ts idx [] opts = Inr opts"
| "ti_options str_n c ts idx (ti # rest) opts =
     (if c then
        (if idx < length ts then
           ti_options str_n c ts (idx + 1) rest
             (AList.update (''ti'' @ str_nat (idx + 1)) (Scalar (PyStr (str_n (ti + ts ! idx)))) opts)
         else Inl IndexError)
      else
        ti_options str_n c ts (idx + 1) rest
          (AList.update (''ti'' @ str_nat (idx + 1)) (Scalar (PyStr (str_n ti))) opts))"

text \<open>
  Lines 155 to 170 of \<^verbatim>\<open>BasilProcess.run\<close>. \<^verbatim>\<open>self.struc["casl"]\<close> and
  \<^verbatim>\<open>self.struc["taus"]\<close> raise \<^verbatim>\<open>KeyError\<close> on a missing key, \<^verbatim>\<open>min\<close> raises on an
  empty list.
\<close>

definition basil_options ::
  "('n::{linorder,plus} \<Rightarrow> string) \<Rightarrow> 'n struc \<Rightarrow> 'n list \<Rightarrow> options \<Rightarrow> error + options" where
  "basil_options str_n struc tis opts =
     (case casl struc of
        None \<Rightarrow> Inl (KeyError ''casl'')
      | Some c \<Rightarrow>
          if c then
            (case taus struc of
               None \<Rightarrow> Inl (KeyError ''taus'')
             | Some ts \<Rightarrow>
                 (case ts of
                    [] \<Rightarrow> Inl (ValueError ''min() arg is an empty sequence'')
                  | t # rest \<Rightarrow>
                      (let o1 = AList.update ''casl'' (Scalar (PyStr [])) opts;
                           o2 = (if fold min rest t = fold max rest t
                                 then AList.update ''tau'' (Scalar (PyStr (str_n (ts ! 0)))) o1
                                 else tau_options str_n 0 ts o1)
                       in ti_options str_n True ts 0 tis o2)))
          else ti_options str_n False [] 0 tis opts)"

subsection \<open>The pipeline state machine\<close>

text \<open>
  A step as \<^verbatim>\<open>basil.get_steps\<close> returns it and \<^verbatim>\<open>_start_fabber(*step)\<close> takes it:
  \<^verbatim>\<open>(step, step_desc, infile, mask, options, prev_step)\<close>, the last one optional.
\<close>

record step =
  step_no :: int
  step_desc :: string
  infile :: image
  mask_img :: image
  step_options :: options
  prev_step :: "int option"

text \<open>
  What the process does to its surroundings, in the order in which it does it:
  the signals it emits, the call \<^verbatim>\<open>self.fabber.execute(options)\<close> that starts a
  fit, and the call \<^verbatim>\<open>self.ivm.delete_data(name)\<close>.
\<close>

datatype event =
    SigStep string
  | FabberExecute options
  | SigProgress real
  | SigFinished status string "error option"
  | IvmDeleteData string

text \<open>
  The attributes of \<^verbatim>\<open>BasilProcess\<close>; \<open>ivm_data\<close> holds the names of the data
  sets of \<^verbatim>\<open>self.ivm.data\<close>, \<open>trace\<close> the events so far.
\<close>

record basil =
  status :: status
  log_text :: string
  exception :: "error option"
  steps :: "step list"
  step_num :: nat
  ivm_data :: "string list"
  trace :: "event list"

definition output_rename :: "(string \<times> string) list" where
  "output_rename =
     [(''mean_ftiss'', ''perfusion''),
      (''mean_deltiss'', ''arrival''),
      (''mean_fblood'', ''aCBV''),
      (''std_ftiss'', ''perfusion_std''),
      (''std_deltiss'', ''arrival_std''),
      (''std_fblood'', ''aCBV_std'')]"

text \<open>
  The option dictionary that \<^verbatim>\<open>_start_fabber\<close> builds; \<open>final\<close> is the test
  \<^verbatim>\<open>self.step_num == len(self.steps)\<close>.
\<close>

definition dispatch_options :: "bool \<Rightarrow> step \<Rightarrow> options" where
  "dispatch_options final st =
     (let o1 = AList.update ''model-group'' (Scalar (PyStr ''asl'')) (step_options st);
          o2 = AList.update ''data'' (Scalar (PyStr (iname (infile st)))) o1;
          o3 = AList.update ''roi'' (Scalar (PyStr (iname (mask_img st)))) o2;
          o4 = (if final then
                  AList.update ''save-model-fit'' (Scalar (PyStr []))
                    (AList.update ''save-std'' (Scalar (PyStr []))
                      (AList.update ''save-mean'' (Scalar (PyStr [])) o3))
                else AList.update ''save-mvn'' (Scalar (PyStr [])) o3);
          o5 = AList.update ''output-rename'' (Table output_rename) o4
      in case prev_step st of
           None \<Rightarrow> o5
         | Some p \<Rightarrow> AList.update ''continue-from-mvn'' (Scalar (PyStr ''finalMVN'')) o5)"

text \<open>\<^verbatim>\<open>BasilProcess._start_fabber\<close>.\<close>

definition start_fabber :: "step \<Rightarrow> basil \<Rightarrow> basil" where
  "start_fabber st b =
     (let desc = (case prev_step st of
                    None \<Rightarrow> step_desc st
                  | Some p \<Rightarrow> step_desc st @ '' - init with STEP '' @ str_int p)
      in b\<lparr>log_text := log_text b @ desc @ [CHR 0x0A, CHR 0x0A],
            trace := trace b @ [SigStep (step_desc st),
                                FabberExecute (dispatch_options (step_num b = length (steps b)) st)]\<rparr>)"

text \<open>\<^verbatim>\<open>BasilProcess._next_step\<close>.\<close>

definition next_step :: "basil \<Rightarrow> basil" where
  "next_step b =
     (if status b \<noteq> RUNNING then b
      else if step_num b < length (steps b) then
        start_fabber (steps b ! step_num b) (b\<lparr>step_num := step_num b + 1\<rparr>)
      else
        (let b1 = b\<lparr>log_text := log_text b @ ''COMPLETE'' @ [CHR 0x0A],
                     status := SUCCEEDED, steps := [], step_num := 0\<rparr>;
             b2 = (if ''finalMVN'' \<in> set (ivm_data b1)
                   then b1\<lparr>ivm_data := removeAll ''finalMVN'' (ivm_data b1),
                           trace := trace b1 @ [IvmDeleteData ''finalMVN'']\<rparr>
                   else b1)
         in b2\<lparr>trace := trace b2 @ [SigFinished (status b2) (log_text b2) (exception b2)]\<rparr>))"

text \<open>\<^verbatim>\<open>BasilProcess._fabber_finished(status, log, exception)\<close>.\<close>

definition fabber_finished :: "status \<Rightarrow> string \<Rightarrow> error option \<Rightarrow> basil \<Rightarrow> basil" where
  "fabber_finished st lg ex b =
     (if status b \<noteq> RUNNING then b
      else
        (let b1 = b\<lparr>log_text := log_text b @ lg @ [CHR 0x0A, CHR 0x0A]\<rparr>
         in if st = SUCCEEDED then next_step b1
            else
              (let b2 = b1\<lparr>log_text := log_text b1 @ ''CANCELLED'' @ [CHR 0x0A], status := st\<rparr>
               in b2\<lparr>trace := trace b2 @ [SigFinished (status b2) (log_text b2) ex]\<rparr>)))"

text \<open>
  \<^verbatim>\<open>BasilProcess._fabber_progress(complete)\<close>, with \<open>fraction\<close> for \<^verbatim>\<open>complete\<close>: the signal carries
  \<^verbatim>\<open>(self.step_num - 1 + complete)/len(self.steps)\<close>, and the division raises
  when there is no step.
\<close>

definition fabber_progress :: "real \<Rightarrow> basil \<Rightarrow> error + basil" where
  "fabber_progress fraction b =
     (if status b = RUNNING then
        (if length (steps b) = 0 then Inl ZeroDivisionError
         else Inr (b\<lparr>trace := trace b @
                 [SigProgress ((real (step_num b) - 1 + fraction) / real (length (steps b)))]\<rparr>))
      else Inr b)"

text \<open>
  The end of \<^verbatim>\<open>BasilProcess.run\<close>: the step list and the log of
  \<^verbatim>\<open>basil.get_steps\<close> are stored, the counter is reset, the status becomes
  RUNNING and the first step is started.
\<close>

definition start_pipeline :: "step list \<Rightarrow> string \<Rightarrow> basil \<Rightarrow> basil" where
  "start_pipeline sts lg b =
     next_step (b\<lparr>steps := sts, log_text := lg, step_num := 0, status := RUNNING\<rparr>)"

text \<open>
  The callbacks that the fitting process delivers through its signals
  \<^verbatim>\<open>sig_finished\<close> and \<^verbatim>\<open>sig_progress\<close>, and their delivery one after the other.
\<close>

datatype callback = Finished status string "error option" | Progress real

fun deliver :: "callback \<Rightarrow> basil \<Rightarrow> error + basil" where
  "deliver (Finished st lg ex) b = Inr (fabber_finished st lg ex b)"
| "deliver (Progress c) b = fabber_progress c b"

fun deliver_all :: "callback list \<Rightarrow> basil \<Rightarrow> error + basil" where
  "deliver_all [] b = Inr b"
| "deliver_all (cb # cbs) b =
     (case deliver cb b of Inl e \<Rightarrow> Inl e | Inr b' \<Rightarrow> deliver_all cbs b')"

text \<open>
  A run of the pipeline in which every fit ends: the fit of a step puts its
  results into the data store and then reports through \<^verbatim>\<open>sig_finished\<close>.
\<close>

record outcome =
  out_status :: status
  out_log :: string
  out_exception :: "error option"
  out_data :: "string list"

fun drive :: "outcome list \<Rightarrow> basil \<Rightarrow> basil" where
  "drive [] b = b"
| "drive (r # rs) b =
     drive rs (fabber_finished (out_status r) (out_log r) (out_exception r)
                 (b\<lparr>ivm_data := List.union (ivm_data b) (out_data r)\<rparr>))"

text \<open>The option dictionaries of the fits started, in order.\<close>

fun dispatched :: "event list \<Rightarrow> options list" where
  "dispatched [] = []"
| "dispatched (FabberExecute opts # es) = opts # dispatched es"
| "dispatched (e # es) = dispatched es"

definition summary_outputs :: "string list" where
  "summary_outputs = [''save-mean'', ''save-std'', ''save-model-fit'']"

text \<open>The events of starting a step: the step signal and the start of the fit.\<close>

definition step_event :: "event \<Rightarrow> bool" where
  "step_event e = (case e of SigStep d \<Rightarrow> True | FabberExecute opts \<Rightarrow> True | _ \<Rightarrow> False)"

text \<open>
  The option dictionaries of a run over the steps \<open>sts\<close>, in order: the last
  step is the one for which \<^verbatim>\<open>self.step_num == len(self.steps)\<close> holds when it is
  started.
\<close>

definition dispatch_plan :: "step list \<Rightarrow> options list" where
  "dispatch_plan sts = map (\<lambda>i. dispatch_options (Suc i = length sts) (sts ! i)) [0 ..< length sts]"

text \<open>
  The fits started so far are the first \<open>k\<close> of the plan, put after the fits
  \<open>d0\<close> of earlier runs; while the process is running, \<open>k\<close> is its step counter.
\<close>

definition in_order :: "options list \<Rightarrow> step list \<Rightarrow> basil \<Rightarrow> bool" where
  "in_order d0 sts b =
     (\<exists>k \<le> length sts. dispatched (trace b) = d0 @ take k (dispatch_plan sts)
          \<and> (status b = RUNNING \<longrightarrow> steps b = sts \<and> step_num b = k))"

section \<open>A concrete environment\<close>

text \<open>
  Concrete inputs on which the definitions above are evaluated. A pattern
  without special characters matches the strings it is a prefix of
  (\<^verbatim>\<open>re.match\<close> anchors at the start only). The file system is the dictionary
  of the files of the working directory; matrix entries are the two floats
  \<^verbatim>\<open>1.0\<close> and \<^verbatim>\<open>0.0\<close>.
\<close>

definition literal_match :: "string \<Rightarrow> string \<Rightarrow> bool" where
  "literal_match p s = (take (length p) s = p)"

definition demo_str :: "bool \<Rightarrow> string" where
  "demo_str b = (if b then ''1.0'' else ''0.0'')"

definition demo_float :: "string \<Rightarrow> bool option" where
  "demo_float s = (if s = ''1.0'' then Some True else if s = ''0.0'' then Some False else None)"

definition demo_image :: "string \<Rightarrow> image" where
  "demo_image n = \<lparr>iname = n, ipath = n, fpath = n @ ''.nii.gz'', ext = ''.nii.gz'',
                    ext_matches = [''.nii.gz'']\<rparr>"

text \<open>A file is an image when it is there and its name ends in \<^verbatim>\<open>.nii.gz\<close>.\<close>

definition demo_load :: "(string \<times> real) list \<Rightarrow> string \<Rightarrow> string \<Rightarrow> image option" where
  "demo_load f c n =
     (if map_of f n \<noteq> None \<and> drop (length n - 7) n = ''.nii.gz''
      then Some (demo_image (take (length n - 7) n)) else None)"

text \<open>
  The programs: \<^verbatim>\<open>bet\<close> and \<^verbatim>\<open>flirt\<close> write one image and exit with status 0,
  \<^verbatim>\<open>false\<close> exits with status 1, and no other program exists.
\<close>

definition demo_popen ::
  "string list \<Rightarrow> string \<Rightarrow> (string \<times> real) list \<Rightarrow> (error + int) \<times> (string \<times> real) list" where
  "demo_popen argv c f =
     (case argv of
        [] \<Rightarrow> (Inl (OSError ''No such file or directory''), f)
      | prog # rest \<Rightarrow>
          if prog = ''bet'' then (Inr 0, AList.update ''in_bet.nii.gz'' 2 f)
          else if prog = ''flirt'' then (Inr 0, AList.update ''in_reg.nii.gz'' 2 f)
          else if prog = ''false'' then (Inr 1, f)
          else (Inl (OSError ''No such file or directory''), f))"

definition demo_env :: "((string \<times> real) list, unit, bool) env" where
  "demo_env =
     \<lparr>is_executable = (\<lambda>f c p. False),
      shlex_split = (\<lambda>s. Inr (py_split [] s)),
      popen_wait = demo_popen,
      get_files = (\<lambda>f d. f),
      re_match = literal_match,
      load_image = demo_load,
      read_text_file = (\<lambda>f c n. if map_of f n \<noteq> None then Inr ''text'' else Inl (IOError n)),
      save_temp_image = (\<lambda>x d f. (demo_image ''tmp'', AList.update ''tmp.nii.gz'' 1 f)),
      image_data = (\<lambda>f i. ()),
      write_text = (\<lambda>p s f. AList.update p 3 f),
      str_float = demo_str,
      float_of = demo_float,
      linalg_inv = (\<lambda>m. Inr m)\<rparr>"

definition demo_wsp :: workspace where
  "demo_wsp = \<lparr>workdir = ''/tmp/fsl'', path = [''/usr/local/fsl/bin'']\<rparr>"

definition demo_world :: "(string \<times> real) list world" where
  "demo_world = \<lparr>cwd = ''/home/user'', fs = [(''in.nii.gz'', 1), (''ref.nii.gz'', 1)]\<rparr>"

definition no_kwargs :: kwargs where
  "no_kwargs = \<lparr>output_name = None, extra_args = None, mask_kw = None, brain_kw = None,
                 output_mat = None, output_invmat = None\<rparr>"

text \<open>Two steps, a process that has not run, and the outcome of a fit that succeeds.\<close>

definition demo_step1 :: step where
  "demo_step1 = \<lparr>step_no = 1, step_desc = ''STEP 1: VB - init'', infile = demo_image ''asldata'',
                  mask_img = demo_image ''mask'',
                  step_options = [(''save-mean'', Scalar (PyStr []))], prev_step = None\<rparr>"

definition demo_step2 :: step where
  "demo_step2 = \<lparr>step_no = 2, step_desc = ''STEP 2: VB - spatial'', infile = demo_image ''asldata'',
                  mask_img = demo_image ''mask'',
                  step_options = [(''method'', Scalar (PyStr ''spatialvb''))], prev_step = Some 1\<rparr>"

definition idle :: basil where
  "idle = \<lparr>status = PENDING, log_text = [], exception = None, steps = [], step_num = 0,
            ivm_data = [''asldata'', ''mask''], trace = []\<rparr>"

definition fit_ok :: outcome where
  "fit_ok = \<lparr>out_status = SUCCEEDED, out_log = ''fit done'', out_exception = None,
              out_data = [''finalMVN'']\<rparr>"


section \<open>Properties of the decimal rendering\<close>

lemma digit_val_digit_char: "d < 10 \<Longrightarrow> digit_val (digit_char d) = d"
proof -
  assume "d < 10"
  then have "d \<in> {0, 1, 2, 3, 4, 5, 6, 7, 8, 9}" by auto
  then show ?thesis
    by (auto simp: digit_val_def digit_char_def)
qed

lemma nat_of_str_str_nat: "nat_of_str (str_nat n) = n"
proof (induction n rule: str_nat.induct)
  case (1 n)
  show ?case
  proof (cases "n < 10")
    case True
    then show ?thesis
      by (subst str_nat.simps) (simp add: nat_of_str_def digit_val_digit_char)
  next
    case False
    then have "nat_of_str (str_nat (n div 10)) = n div 10" using 1 by simp
    then show ?thesis
      using False
      by (subst str_nat.simps) (simp add: nat_of_str_def digit_val_digit_char)
  qed
qed

lemma str_nat_inj: "str_nat m = str_nat n \<longleftrightarrow> m = n"
  by (metis nat_of_str_str_nat)


lemma str_nat_nonempty [simp]: "str_nat n \<noteq> []" "[] \<noteq> str_nat n"
  by (subst str_nat.simps, simp)+


text \<open>The rendering of some small numbers.\<close>

lemma str_nat_examples:
  "str_nat (Suc 0) = ''1''" "str_nat (Suc (Suc 0)) = ''2''" "str_int 2 = ''2''"
  "str_int 14 = ''14''" "str_int 16 = ''16''" "str_int 29 = ''29''" "str_int 36 = ''36''"
  by code_simp+

section \<open>The matrix text format\<close>

subsection \<open>The parsing loop\<close>

lemma parse_lines_skip:
  "line_vals line = [] \<Longrightarrow> parse_lines fl nc fv (line # lines) = parse_lines fl nc fv lines"
  by simp

lemma parse_lines_bad_len:
  "line_vals line \<noteq> [] \<Longrightarrow> \<not> nc < 0 \<Longrightarrow> int (length (line_vals line)) \<noteq> nc \<Longrightarrow>
   \<exists>msg. parse_lines fl nc fv (line # lines) = Inl (ValueError msg)"
  by simp

lemma parse_lines_bad_num:
  "line_vals line \<noteq> [] \<Longrightarrow> v \<in> set (line_vals line) \<Longrightarrow> fl v = None \<Longrightarrow>
   \<exists>msg. parse_lines fl nc fv (line # lines) = Inl (ValueError msg)"
proof -
  assume a: "line_vals line \<noteq> []" "v \<in> set (line_vals line)" "fl v = None"
  then obtain u where "find (\<lambda>v. fl v = None) (line_vals line) = Some u"
    by (cases "find (\<lambda>v. fl v = None) (line_vals line)") (auto simp: find_None_iff)
  then show ?thesis using a(1) by (simp add: Let_def)
qed

lemma parse_lines_ok:
  "line_vals line \<noteq> [] \<Longrightarrow> nc < 0 \<or> int (length (line_vals line)) = nc \<Longrightarrow>
   \<forall>v \<in> set (line_vals line). fl v \<noteq> None \<Longrightarrow>
   parse_lines fl nc fv (line # lines) =
     parse_lines fl (int (length (line_vals line))) (fv @ [map (\<lambda>v. the (fl v)) (line_vals line)]) lines"
proof -
  assume a: "line_vals line \<noteq> []" "nc < 0 \<or> int (length (line_vals line)) = nc"
    "\<forall>v \<in> set (line_vals line). fl v \<noteq> None"
  then have "find (\<lambda>v. fl v = None) (line_vals line) = None"
    by (simp add: find_None_iff)
  then show ?thesis using a(1,2) by (auto simp: Let_def)
qed

lemma parse_lines_fixed_ok:
  "\<forall>r \<in> set (filter (\<lambda>vals. vals \<noteq> []) (map line_vals lines)).
      length r = n \<and> (\<forall>v \<in> set r. fl v \<noteq> None) \<Longrightarrow>
   parse_lines fl (int n) fv lines =
     Inr (fv @ map (map (\<lambda>v. the (fl v))) (filter (\<lambda>vals. vals \<noteq> []) (map line_vals lines)))"
proof (induction lines arbitrary: fv)
  case Nil
  then show ?case by simp
next
  case (Cons line lines)
  have rest: "\<forall>r \<in> set (filter (\<lambda>vals. vals \<noteq> []) (map line_vals lines)).
      length r = n \<and> (\<forall>v \<in> set r. fl v \<noteq> None)"
    using Cons.prems by (cases "line_vals line = []") simp_all
  show ?case
  proof (cases "line_vals line = []")
    case True
    then show ?thesis using Cons.IH [OF rest, of fv] by (simp only: parse_lines_skip) simp
  next
    case False
    then have len: "length (line_vals line) = n" and num: "\<forall>v \<in> set (line_vals line). fl v \<noteq> None"
      using Cons.prems by simp_all
    have "parse_lines fl (int n) fv (line # lines) =
        parse_lines fl (int n) (fv @ [map (\<lambda>v. the (fl v)) (line_vals line)]) lines"
      using parse_lines_ok [OF False _ num, of "int n" fv lines] len by simp
    also have "\<dots> = Inr ((fv @ [map (\<lambda>v. the (fl v)) (line_vals line)]) @
        map (map (\<lambda>v. the (fl v))) (filter (\<lambda>vals. vals \<noteq> []) (map line_vals lines)))"
      by (rule Cons.IH [OF rest])
    finally show ?thesis using False by simp
  qed
qed

lemma parse_lines_fixed_err:
  "\<exists>r \<in> set (filter (\<lambda>vals. vals \<noteq> []) (map line_vals lines)).
      length r \<noteq> n \<or> (\<exists>v \<in> set r. fl v = None) \<Longrightarrow>
   \<exists>msg. parse_lines fl (int n) fv lines = Inl (ValueError msg)"
proof (induction lines arbitrary: fv)
  case Nil
  then show ?case by simp
next
  case (Cons line lines)
  show ?case
  proof (cases "line_vals line = []")
    case True
    then have "\<exists>r \<in> set (filter (\<lambda>vals. vals \<noteq> []) (map line_vals lines)).
      length r \<noteq> n \<or> (\<exists>v \<in> set r. fl v = None)"
      using Cons.prems by simp
    from Cons.IH [OF this, of fv] show ?thesis using True by (simp only: parse_lines_skip)
  next
    case False
    show ?thesis
    proof (cases "length (line_vals line) = n \<and> (\<forall>v \<in> set (line_vals line). fl v \<noteq> None)")
      case True
      then have len: "length (line_vals line) = n" and num: "\<forall>v \<in> set (line_vals line). fl v \<noteq> None"
        by simp_all
      have st: "parse_lines fl (int n) fv (line # lines) =
        parse_lines fl (int n) (fv @ [map (\<lambda>v. the (fl v)) (line_vals line)]) lines"
        using parse_lines_ok [OF False _ num, of "int n" fv lines] len by simp
      have "\<exists>r \<in> set (filter (\<lambda>vals. vals \<noteq> []) (map line_vals lines)).
        length r \<noteq> n \<or> (\<exists>v \<in> set r. fl v = None)"
        using Cons.prems True False by auto
      from Cons.IH [OF this] show ?thesis unfolding st .
    next
      case bad: False
      show ?thesis
      proof (cases "length (line_vals line) = n")
        case True
        then obtain v where "v \<in> set (line_vals line)" "fl v = None" using bad by auto
        then show ?thesis by (rule parse_lines_bad_num [OF False])
      next
        case ne: False
        then have "int (length (line_vals line)) \<noteq> int n" by simp
        then show ?thesis using parse_lines_bad_len [OF False, of "int n"] by simp
      qed
    qed
  qed
qed


lemma parse_lines_start_ok:
  "\<forall>r \<in> set (filter (\<lambda>vals. vals \<noteq> []) (map line_vals lines)).
      length r = length (hd (filter (\<lambda>vals. vals \<noteq> []) (map line_vals lines)))
      \<and> (\<forall>v \<in> set r. fl v \<noteq> None) \<Longrightarrow>
   parse_lines fl (- 1) fv lines =
     Inr (fv @ map (map (\<lambda>v. the (fl v))) (filter (\<lambda>vals. vals \<noteq> []) (map line_vals lines)))"
proof (induction lines)
  case Nil
  then show ?case by simp
next
  case (Cons line lines)
  show ?case
  proof (cases "line_vals line = []")
    case True
    then show ?thesis using Cons by (simp only: parse_lines_skip) simp
  next
    case False
    let ?r0 = "line_vals line"
    have num: "\<forall>v \<in> set ?r0. fl v \<noteq> None" using Cons.prems False by simp
    have rest: "\<forall>r \<in> set (filter (\<lambda>vals. vals \<noteq> []) (map line_vals lines)).
      length r = length ?r0 \<and> (\<forall>v \<in> set r. fl v \<noteq> None)"
      using Cons.prems False by simp
    have "parse_lines fl (- 1) fv (line # lines) =
        parse_lines fl (int (length ?r0)) (fv @ [map (\<lambda>v. the (fl v)) ?r0]) lines"
      using parse_lines_ok [OF False _ num, of "- 1" fv lines] by simp
    also have "\<dots> = Inr ((fv @ [map (\<lambda>v. the (fl v)) ?r0]) @
        map (map (\<lambda>v. the (fl v))) (filter (\<lambda>vals. vals \<noteq> []) (map line_vals lines)))"
      by (rule parse_lines_fixed_ok [OF rest])
    finally show ?thesis using False by simp
  qed
qed

lemma parse_lines_start_err:
  "\<exists>r \<in> set (filter (\<lambda>vals. vals \<noteq> []) (map line_vals lines)).
      length r \<noteq> length (hd (filter (\<lambda>vals. vals \<noteq> []) (map line_vals lines)))
      \<or> (\<exists>v \<in> set r. fl v = None) \<Longrightarrow>
   \<exists>msg. parse_lines fl (- 1) fv lines = Inl (ValueError msg)"
proof (induction lines)
  case Nil
  then show ?case by simp
next
  case (Cons line lines)
  show ?case
  proof (cases "line_vals line = []")
    case True
    then show ?thesis using Cons by (simp only: parse_lines_skip) simp
  next
    case False
    let ?r0 = "line_vals line"
    show ?thesis
    proof (cases "\<forall>v \<in> set ?r0. fl v \<noteq> None")
      case num: True
      have st: "parse_lines fl (- 1) fv (line # lines) =
        parse_lines fl (int (length ?r0)) (fv @ [map (\<lambda>v. the (fl v)) ?r0]) lines"
        using parse_lines_ok [OF False _ num, of "- 1" fv lines] by simp
      have "\<exists>r \<in> set (filter (\<lambda>vals. vals \<noteq> []) (map line_vals lines)).
          length r \<noteq> length ?r0 \<or> (\<exists>v \<in> set r. fl v = None)"
        using Cons.prems False num by auto
      from parse_lines_fixed_err [OF this] show ?thesis unfolding st .
    next
      case False
      then obtain v where "v \<in> set ?r0" "fl v = None" by auto
      then show ?thesis by (rule parse_lines_bad_num [OF \<open>line_vals line \<noteq> []\<close>])
    qed
  qed
qed


subsection \<open>Joining and splitting\<close>

lemma splitlines_acc_plain:
  "c \<noteq> CHR 0x0A \<Longrightarrow> c \<noteq> CHR 0x0D \<Longrightarrow> splitlines_acc acc (c # cs) = splitlines_acc (c # acc) cs"
  by (cases cs) simp_all

lemma splitlines_acc_lf:
  "splitlines_acc acc (CHR 0x0A # cs) = rev acc # splitlines_acc [] cs"
  by (cases cs) simp_all

lemma splitlines_acc_line:
  "\<forall>c \<in> set l. c \<noteq> CHR 0x0A \<and> c \<noteq> CHR 0x0D \<Longrightarrow>
   splitlines_acc acc (l @ rest) = splitlines_acc (rev l @ acc) rest"
  by (induction l arbitrary: acc) (simp_all add: splitlines_acc_plain)

lemma splitlines_join:
  "\<forall>l \<in> set ls. l \<noteq> [] \<and> (\<forall>c \<in> set l. c \<noteq> CHR 0x0A \<and> c \<noteq> CHR 0x0D) \<Longrightarrow>
   splitlines (join [CHR 0x0A] ls) = ls"
proof (induction ls)
  case Nil
  then show ?case by (simp add: splitlines_def)
next
  case (Cons l ls)
  then have l: "l \<noteq> []" "\<forall>c \<in> set l. c \<noteq> CHR 0x0A \<and> c \<noteq> CHR 0x0D" by simp_all
  show ?case
  proof (cases ls)
    case Nil
    have "splitlines_acc [] (l @ []) = splitlines_acc (rev l @ []) []"
      by (rule splitlines_acc_line [OF l(2)])
    then show ?thesis using Nil l(1) by (simp add: splitlines_def)
  next
    case (Cons k ks)
    have ih: "splitlines_acc [] (join [CHR 0x0A] (k # ks)) = k # ks"
      using Cons.IH Cons.prems Cons by (simp add: splitlines_def)
    have "splitlines_acc [] (l @ CHR 0x0A # join [CHR 0x0A] (k # ks)) =
          splitlines_acc (rev l @ []) (CHR 0x0A # join [CHR 0x0A] (k # ks))"
      by (rule splitlines_acc_line [OF l(2)])
    also have "\<dots> = l # splitlines_acc [] (join [CHR 0x0A] (k # ks))"
      by (simp add: splitlines_acc_lf)
    finally show ?thesis using Cons ih by (simp add: splitlines_def)
  qed
qed

lemma py_split_token:
  "\<forall>c \<in> set t. \<not> isspace c \<Longrightarrow> py_split acc (t @ rest) = py_split (rev t @ acc) rest"
  by (induction t arbitrary: acc) simp_all

lemma py_split_join:
  "\<forall>t \<in> set ts. t \<noteq> [] \<and> (\<forall>c \<in> set t. \<not> isspace c) \<Longrightarrow>
   py_split [] (join '' '' ts) = ts"
proof (induction ts)
  case Nil
  then show ?case by simp
next
  case (Cons t ts)
  then have t: "t \<noteq> []" "\<forall>c \<in> set t. \<not> isspace c" by simp_all
  have sp: "isspace CHR '' ''" by (simp add: isspace_def)
  show ?case
  proof (cases ts)
    case Nil
    have "py_split [] (t @ []) = py_split (rev t @ []) []" by (rule py_split_token [OF t(2)])
    then show ?thesis using Nil t(1) by simp
  next
    case (Cons u us)
    have ih: "py_split [] (join '' '' (u # us)) = u # us"
      using Cons.IH Cons.prems Cons by simp
    have "py_split [] (t @ CHR '' '' # join '' '' (u # us)) =
          py_split (rev t @ []) (CHR '' '' # join '' '' (u # us))"
      by (rule py_split_token [OF t(2)])
    also have "\<dots> = t # py_split [] (join '' '' (u # us))"
      using t(1) sp by simp
    finally show ?thesis using Cons ih by simp
  qed
qed

lemma set_join:
  "set (join sep ts) \<subseteq> (\<Union>t \<in> set ts. set t) \<union> set sep"
  by (induction sep ts rule: join.induct) auto

lemma join_nonempty: "ts \<noteq> [] \<Longrightarrow> \<forall>t \<in> set ts. t \<noteq> [] \<Longrightarrow> join sep ts \<noteq> []"
  by (induction sep ts rule: join.induct) auto

lemma hd_join: "ts \<noteq> [] \<Longrightarrow> hd ts \<noteq> [] \<Longrightarrow> hd (join sep ts) = hd (hd ts)"
  by (induction sep ts rule: join.induct) auto

lemma last_join:
  "ts \<noteq> [] \<Longrightarrow> \<forall>t \<in> set ts. t \<noteq> [] \<Longrightarrow> last (join sep ts) = last (last ts)"
  by (induction sep ts rule: join.induct) (auto simp: join_nonempty)

lemma dropWhile_hd: "xs \<noteq> [] \<Longrightarrow> \<not> P (hd xs) \<Longrightarrow> dropWhile P xs = xs"
  by (cases xs) simp_all

lemma py_strip_id:
  "s \<noteq> [] \<Longrightarrow> \<not> isspace (hd s) \<Longrightarrow> \<not> isspace (last s) \<Longrightarrow> py_strip s = s"
proof -
  assume a: "s \<noteq> []" "\<not> isspace (hd s)" "\<not> isspace (last s)"
  have 1: "dropWhile isspace s = s" using a(1) a(2) by (rule dropWhile_hd)
  have r: "rev s \<noteq> []" using a(1) by simp
  have "hd (rev s) = last s" using a(1) by (simp add: hd_rev)
  then have "\<not> isspace (hd (rev s))" using a(3) by simp
  with r have 2: "dropWhile isspace (rev s) = rev s" by (rule dropWhile_hd)
  show ?thesis by (simp add: py_strip_def 1 2)
qed

lemma line_vals_join:
  assumes "ts \<noteq> []" "\<forall>t \<in> set ts. clean_token t"
  shows "line_vals (join '' '' ts) = ts"
proof -
  let ?l = "join '' '' ts"
  have ne: "\<forall>t \<in> set ts. t \<noteq> []" and nsp: "\<forall>t \<in> set ts. \<forall>c \<in> set t. \<not> isspace c"
    and nh: "\<forall>t \<in> set ts. \<forall>c \<in> set t. c \<noteq> CHR ''#''"
    and nc: "\<forall>t \<in> set ts. \<forall>c \<in> set t. c \<noteq> CHR '',''"
    using assms(2) by (simp_all add: clean_token_def)
  have chars: "\<forall>c \<in> set ?l. c \<noteq> CHR ''#'' \<and> c \<noteq> CHR '',''"
  proof
    fix c assume "c \<in> set ?l"
    then have "c = CHR '' '' \<or> (\<exists>t \<in> set ts. c \<in> set t)"
      using set_join [of "'' ''" ts] by auto
    then show "c \<noteq> CHR ''#'' \<and> c \<noteq> CHR '',''" using nh nc by auto
  qed
  have 1: "takeWhile (\<lambda>c. c \<noteq> CHR ''#'') ?l = ?l" using chars by (simp add: takeWhile_eq_all_conv)
  have lne: "?l \<noteq> []" by (rule join_nonempty [OF assms(1) ne])
  have "hd ?l = hd (hd ts)" using hd_join [OF assms(1)] ne assms(1) by simp
  moreover have "hd (hd ts) \<in> set (hd ts)" "hd ts \<in> set ts" using assms(1) ne by simp_all
  ultimately have h: "\<not> isspace (hd ?l)" using nsp by metis
  have "last ?l = last (last ts)" by (rule last_join [OF assms(1) ne])
  moreover have "last (last ts) \<in> set (last ts)" "last ts \<in> set ts" using assms(1) ne by simp_all
  ultimately have la: "\<not> isspace (last ?l)" using nsp by metis
  have 2: "py_strip ?l = ?l" by (rule py_strip_id [OF lne h la])
  have 3: "map (\<lambda>c. if c = CHR '','' then CHR '' '' else c) ?l = ?l"
    using chars by (simp add: map_idI)
  have 4: "py_split [] ?l = ts" using py_split_join ne nsp by simp
  show ?thesis by (simp add: line_vals_def 1 2 3 4)
qed


lemma text_to_matrix_ok:
  "\<forall>r \<in> set (token_rows text).
      length r = length (hd (token_rows text)) \<and> (\<forall>v \<in> set r. fl v \<noteq> None) \<Longrightarrow>
   text_to_matrix fl text = Inr (map (map (\<lambda>v. the (fl v))) (token_rows text))"
  using parse_lines_start_ok [of "splitlines text" fl "[]"]
  by (simp add: text_to_matrix_def token_rows_def)

lemma text_to_matrix_err:
  "\<exists>r \<in> set (token_rows text).
      length r \<noteq> length (hd (token_rows text)) \<or> (\<exists>v \<in> set r. fl v = None) \<Longrightarrow>
   \<exists>msg. text_to_matrix fl text = Inl (ValueError msg)"
  using parse_lines_start_err [of "splitlines text" fl "[]"]
  by (simp add: text_to_matrix_def token_rows_def)

lemma token_rows_matrix_to_text:
  assumes "0 < n"
      and "\<forall>row \<in> set mat. length row = n \<and> (\<forall>v \<in> set row. clean_token (str_f v))"
  shows "token_rows (matrix_to_text str_f mat) = map (map str_f) mat"
proof -
  let ?line = "\<lambda>row. join '' '' (map str_f row)"
  have vals: "line_vals (?line row) = map str_f row" if "row \<in> set mat" for row
  proof -
    have "map str_f row \<noteq> []" using assms that by auto
    moreover have "\<forall>t \<in> set (map str_f row). clean_token t" using assms(2) that by auto
    ultimately show ?thesis by (rule line_vals_join)
  qed
  have line_ok: "?line row \<noteq> [] \<and> (\<forall>c \<in> set (?line row). c \<noteq> CHR 0x0A \<and> c \<noteq> CHR 0x0D)"
    if "row \<in> set mat" for row
  proof
    have ne: "map str_f row \<noteq> []" using assms that by auto
    have cl: "\<forall>t \<in> set (map str_f row). clean_token t" using assms(2) that by auto
    then have "\<forall>t \<in> set (map str_f row). t \<noteq> []" by (simp add: clean_token_def)
    with ne show "?line row \<noteq> []" by (rule join_nonempty)
    show "\<forall>c \<in> set (?line row). c \<noteq> CHR 0x0A \<and> c \<noteq> CHR 0x0D"
    proof
      fix c assume "c \<in> set (?line row)"
      then have "c = CHR '' '' \<or> (\<exists>t \<in> set (map str_f row). c \<in> set t)"
        using set_join [of "'' ''" "map str_f row"] by auto
      then show "c \<noteq> CHR 0x0A \<and> c \<noteq> CHR 0x0D"
      proof
        assume "c = CHR '' ''"
        then show ?thesis by simp
      next
        assume "\<exists>t \<in> set (map str_f row). c \<in> set t"
        then have "\<not> isspace c" using cl by (auto simp: clean_token_def)
        then show ?thesis by (auto simp: isspace_def)
      qed
    qed
  qed
  have "splitlines (matrix_to_text str_f mat) = map ?line mat"
    unfolding matrix_to_text_def using line_ok by (intro splitlines_join) auto
  then have "token_rows (matrix_to_text str_f mat) =
      filter (\<lambda>vals. vals \<noteq> []) (map (\<lambda>row. line_vals (?line row)) mat)"
    by (simp add: token_rows_def comp_def)
  also have "map (\<lambda>row. line_vals (?line row)) mat = map (map str_f) mat"
    using vals by simp
  also have "filter (\<lambda>vals. vals \<noteq> []) (map (map str_f) mat) = map (map str_f) mat"
    using assms by (auto simp: filter_id_conv)
  finally show ?thesis .
qed


subsection \<open>Round trip and parse errors\<close>

text \<open>
  Claim C7, as amended. Let \<open>mat\<close> be a matrix with at least one row and at least
  one column, all rows of the same length, such that \<^verbatim>\<open>str\<close> of every entry is
  one clean token that \<^verbatim>\<open>float\<close> reads back as a float close to the entry
  (\<open>close\<close> is the tolerance that \<^verbatim>\<open>float(str(v))\<close> guarantees). Then
  \<^verbatim>\<open>text_to_matrix(matrix_to_text(mat))\<close> returns a matrix of the same shape whose
  entries are close to those of \<open>mat\<close>. And \<^verbatim>\<open>text_to_matrix\<close> raises
  \<^verbatim>\<open>ValueError\<close> on every text in which two rows (lines with values, comments cut
  off) differ in their number of columns or some value is not numeric.
\<close>

theorem matrix_text_round_trip:
  "(0 < n \<and> mat \<noteq> [] \<and>
    (\<forall>row \<in> set mat. length row = n \<and>
        (\<forall>v \<in> set row. clean_token (str_f v) \<and> (\<exists>v'. fl (str_f v) = Some v' \<and> close v v')))
    \<longrightarrow> (\<exists>m. text_to_matrix fl (matrix_to_text str_f mat) = Inr m \<and>
              list_all2 (list_all2 close) mat m))
   \<and> ((\<exists>r \<in> set (token_rows text). \<exists>r' \<in> set (token_rows text). length r \<noteq> length r')
        \<or> (\<exists>r \<in> set (token_rows text). \<exists>v \<in> set r. fl v = None)
    \<longrightarrow> (\<exists>msg. text_to_matrix fl text = Inl (ValueError msg)))"
proof (intro conjI impI)
  assume a: "0 < n \<and> mat \<noteq> [] \<and>
    (\<forall>row \<in> set mat. length row = n \<and>
        (\<forall>v \<in> set row. clean_token (str_f v) \<and> (\<exists>v'. fl (str_f v) = Some v' \<and> close v v')))"
  then have n: "0 < n"
    and cl: "\<forall>row \<in> set mat. length row = n \<and> (\<forall>v \<in> set row. clean_token (str_f v))"
    and fl: "\<forall>row \<in> set mat. \<forall>v \<in> set row. \<exists>v'. fl (str_f v) = Some v' \<and> close v v'"
    by auto
  have rows: "token_rows (matrix_to_text str_f mat) = map (map str_f) mat"
    by (rule token_rows_matrix_to_text [OF n cl])
  have len: "\<forall>r \<in> set (map (map str_f) mat). length r = length (hd (map (map str_f) mat))"
    using a by (cases mat) auto
  have "\<forall>r \<in> set (map (map str_f) mat). \<forall>v \<in> set r. fl v \<noteq> None"
    using fl by fastforce
  with len have "\<forall>r \<in> set (map (map str_f) mat).
      length r = length (hd (map (map str_f) mat)) \<and> (\<forall>v \<in> set r. fl v \<noteq> None)"
    by blast
  then have "text_to_matrix fl (matrix_to_text str_f mat) =
      Inr (map (map (\<lambda>v. the (fl v))) (map (map str_f) mat))"
    using text_to_matrix_ok [of "matrix_to_text str_f mat" fl] unfolding rows by simp
  moreover have "list_all2 (list_all2 close) mat (map (map (\<lambda>v. the (fl v))) (map (map str_f) mat))"
  proof -
    have "list_all2 close row (map (\<lambda>v. the (fl (str_f v))) row)" if "row \<in> set mat" for row
    proof -
      have "close v (the (fl (str_f v)))" if "v \<in> set row" for v
        using fl \<open>row \<in> set mat\<close> that by fastforce
      then show ?thesis by (simp add: list_all2_map2 list_all2_same)
    qed
    then show ?thesis by (simp add: list_all2_map2 list_all2_same comp_def)
  qed
  ultimately show "\<exists>m. text_to_matrix fl (matrix_to_text str_f mat) = Inr m \<and>
              list_all2 (list_all2 close) mat m"
    by blast
next
  assume b: "(\<exists>r \<in> set (token_rows text). \<exists>r' \<in> set (token_rows text). length r \<noteq> length r')
        \<or> (\<exists>r \<in> set (token_rows text). \<exists>v \<in> set r. fl v = None)"
  have "\<exists>r \<in> set (token_rows text).
      length r \<noteq> length (hd (token_rows text)) \<or> (\<exists>v \<in> set r. fl v = None)"
  proof (rule ccontr)
    assume "\<not> ?thesis"
    then have all: "\<forall>r \<in> set (token_rows text). length r = length (hd (token_rows text))"
      and num: "\<forall>r \<in> set (token_rows text). \<forall>v \<in> set r. fl v \<noteq> None"
      by auto
    from b num have "\<exists>r \<in> set (token_rows text). \<exists>r' \<in> set (token_rows text). length r \<noteq> length r'"
      by auto
    with all show False by metis
  qed
  then show "\<exists>msg. text_to_matrix fl text = Inl (ValueError msg)"
    by (rule text_to_matrix_err)
qed


text \<open>
  The theorem applied to a 2 by 2 matrix and to a text whose second row is one
  value short.
\<close>

theorem matrix_text_round_trip_witness:
  "(\<exists>m. text_to_matrix demo_float (matrix_to_text demo_str [[True, False], [False, True]]) = Inr m
        \<and> list_all2 (list_all2 (=)) [[True, False], [False, True]] m)
   \<and> (\<exists>msg. text_to_matrix demo_float (''1.0 0.0'' @ [CHR 0x0A] @ ''0.0'') = Inl (ValueError msg))"
  using matrix_text_round_trip [of 2 "[[True, False], [False, True]]" demo_str demo_float "(=)"
          "''1.0 0.0'' @ [CHR 0x0A] @ ''0.0''"]
  by (simp add: clean_token_def demo_str_def demo_float_def isspace_def token_rows_def
        splitlines_def line_vals_def py_strip_def, blast)

text \<open>
  The claim as stated fails on a matrix without columns: two empty rows are
  written as one line feed, the only line is blank and is skipped, and the
  matrix read back has no row.
\<close>

theorem matrix_text_round_trip_counterexample:
  "\<not> (\<exists>m. text_to_matrix demo_float (matrix_to_text demo_str [[], []]) = Inr m
          \<and> length m = length [[], [] :: bool list])"
  by (simp add: text_to_matrix_def matrix_to_text_def splitlines_def line_vals_def py_strip_def)


section \<open>Extension inference\<close>

lemma guess_extension_matches:
  "ext_matches (guess_extension exists img) = filter (\<lambda>e. exists (ipath img @ e)) exts"
  by (simp add: guess_extension_def Let_def split: list.split)

lemma guess_extension_find:
  "ext (guess_extension exists img) =
     (case find (\<lambda>e. exists (ipath img @ e)) exts of None \<Rightarrow> ext img | Some e \<Rightarrow> e)"
  by (simp add: guess_extension_def exts_def Let_def)

text \<open>
  Claim C8. The candidates are tried in the order no extension, \<^verbatim>\<open>.nii\<close>,
  \<^verbatim>\<open>.nii.gz\<close>, and the extension chosen is the first one whose file exists: the
  bare path if it exists, else \<^verbatim>\<open>.nii\<close> if that exists (so with both
  \<^verbatim>\<open>name.nii\<close> and \<^verbatim>\<open>name.nii.gz\<close> present \<^verbatim>\<open>.nii\<close> is chosen), else
  \<^verbatim>\<open>.nii.gz\<close>. The choice is a function of the path and the file system, and
  a second call on the result chooses the same extension again. When no candidate
  exists the extension is left as the constructor set it, which is the default
  \<^verbatim>\<open>.nii.gz\<close>.
\<close>

theorem guess_extension_first_match:
  "ext (guess_extension exists img) =
     (if exists (ipath img) then ''''
      else if exists (ipath img @ ''.nii'') then ''.nii''
      else if exists (ipath img @ ''.nii.gz'') then ''.nii.gz''
      else ext img)
   \<and> guess_extension exists (guess_extension exists img) = guess_extension exists img
   \<and> ext (guess_extension exists (img\<lparr>ext := default_ext\<rparr>)) =
     (if exists (ipath img) then ''''
      else if exists (ipath img @ ''.nii'') then ''.nii''
      else ''.nii.gz'')"
  by (simp add: guess_extension_def exts_def default_ext_def Let_def)

section \<open>The execution workspace\<close>

subsection \<open>Which files a command returns\<close>

lemma match_expected_Some:
  "match_expected m (map Some pats) f = Inr (map (\<lambda>_. f) (filter (\<lambda>p. m p f) pats))"
  by (induction pats) auto

lemma expected_files_Some:
  "expected_files m (map Some pats) fnames =
     Inr (concat (map (\<lambda>f. map (\<lambda>_. f) (filter (\<lambda>p. m p f) pats)) fnames))"
  by (induction fnames) (auto simp: match_expected_Some)



text \<open>
  With patterns, a file is appended once for every pattern that matches it: a
  file that two patterns match is in the list twice.
\<close>

lemma count_list_replicate_name:
  "count_list (map (\<lambda>_. g) xs) f = (if f = g then length xs else 0)"
  by (induction xs) auto

lemma count_list_append: "count_list (xs @ ys) f = count_list xs f + count_list ys f"
  by (induction xs) simp_all

lemma count_list_matches:
  "count_list (concat (map (\<lambda>h. map (\<lambda>_. h) (filter (\<lambda>p. m p h) pats)) fnames)) f =
     count_list fnames f * length (filter (\<lambda>p. m p f) pats)"
  by (induction fnames) (auto simp: count_list_append count_list_replicate_name)

lemma count_expected_files:
  assumes "expected_files m (map Some pats) fnames = Inr files"
  shows "count_list files f = count_list fnames f * length (filter (\<lambda>p. m p f) pats)"
  using assms count_list_matches [of m pats fnames f] by (auto simp: expected_files_Some)


lemma run_success_result:
  assumes "run env wsp w prog args expected = (Inr r, w')"
  shows "\<exists>files imgs text.
           return_files (re_match env) (get_files env (fs w) (workdir wsp))
               (get_files env (fs w') (workdir wsp)) expected = Inr files
         \<and> classify_files (load_image env (fs w') (workdir wsp)) (read_text_file env (fs w') (workdir wsp))
               [] [] files = Inr (imgs, text)
         \<and> r = OTuple [OList (map OImage imgs), ODict (map (\<lambda>(k, v). (k, OStr v)) text)]"
  using assms
  by (auto simp: run_def run_body_def get_return_files_def Let_def
           split: prod.splits sum.splits if_splits)


text \<open>The list \<^verbatim>\<open>return_files\<close> at the example of the spec.\<close>

lemma return_files_example:
  "(pats \<noteq> [] \<longrightarrow>
      (\<exists>files. return_files m pre post (map Some pats) = Inr files \<and>
               set files = {f \<in> fst ` set post. \<exists>p \<in> set pats. m p f}))
   \<and> (a \<noteq> b \<longrightarrow> return_files m [(a, t0)] [(a, t0), (b, t1)] [] = Inr [b])
   \<and> (m p a \<and> \<not> m p b \<longrightarrow> return_files m [(a, t0)] [(a, t0), (b, t1)] [Some p] = Inr [a])"
  by (auto simp: return_files_def expected_files_Some)

subsection \<open>How the files are returned\<close>
















subsection \<open>What a call returns\<close>

lemma run_returns_two_values:
  assumes "run env wsp w prog args expected = (Inr r, w')"
  shows "\<exists>imgs text. r = OTuple [OList imgs, ODict text]"
  using run_success_result [OF assms] by blast

text \<open>
  Claim C6 says that \<^verbatim>\<open>Workspace.run\<close> returns three values: the images, the
  text files and the exit status or command output; so does the docstring of
  \<^verbatim>\<open>run\<close>. The code ends with \<^verbatim>\<open>return imgs, text\<close>: a successful call
  returns two values. Here \<^verbatim>\<open>bet\<close> is run in a workspace where it exits with
  status 0 and writes one image.
\<close>

theorem run_returns_pair:
  "fst (run demo_env demo_wsp demo_world ''bet'' (ArgStr ''in in_bet'') []) =
     Inr (OTuple [OList [OImage (demo_image ''in_bet'')], ODict []])"
  by (simp add: run_def run_body_def demo_env_def demo_wsp_def demo_world_def demo_popen_def
      demo_load_def get_return_files_def return_files_def path_join_def isspace_def Let_def)

subsection \<open>The working directory of the process\<close>

text \<open>
  The error paths of a call, each at a concrete input: a program that does not
  exist, a program that exits with status 1.
\<close>

lemma run_unresolvable_program:
  "run demo_env demo_wsp demo_world ''nosuch'' (ArgStr []) [] =
     (Inl (OSError ''No such file or directory''), demo_world)"
  by (simp add: run_def run_body_def demo_env_def demo_wsp_def demo_world_def demo_popen_def
      path_join_def isspace_def Let_def)

lemma run_nonzero_exit:
  "run demo_env demo_wsp demo_world ''false'' (ArgStr []) [] =
     (Inl (RuntimeError ''false '' 1), demo_world)"
  by (simp add: run_def run_body_def demo_env_def demo_wsp_def demo_world_def demo_popen_def
      path_join_def isspace_def Let_def)

text \<open>
  Claim C10. Whatever a call of \<^verbatim>\<open>Workspace.run\<close> does, return or raise (a
  program that cannot be started, a non-zero exit status, an output file that
  can be read neither as an image nor as text), the current working directory
  of the process after the call is the one before the call.
\<close>

theorem run_restores_cwd:
  "cwd (snd (run env wsp w prog args expected)) = cwd w"
  by (simp add: run_def split: prod.splits)


section \<open>The tool invocation wrappers\<close>

subsection \<open>Options of the model fit as flags\<close>

lemma render_option_flag:
  "v = PyBool True \<or> v = PyStr [] \<Longrightarrow> render_option k v = '' --'' @ k"
  by (auto simp: render_option_def)

lemma render_option_suppressed:
  "v = PyBool False \<or> v = PyNone \<Longrightarrow> render_option k v = []"
  by (auto simp: render_option_def)

lemma render_option_value:
  "py_truthy v \<Longrightarrow> \<not> py_eq v (PyBool True) \<Longrightarrow> render_option k v = '' --'' @ k @ ''='' @ py_str v"
  by (cases v) (auto simp: render_option_def)

lemma py_eq_True_iff:
  "py_eq v (PyBool True) \<longleftrightarrow> v = PyBool True \<or> v = PyInt 1"
  by (cases v) auto

text \<open>
  Claim C2 says that every value other than \<^verbatim>\<open>True\<close>, the empty string,
  \<^verbatim>\<open>False\<close> and \<^verbatim>\<open>None\<close> is rendered as \<^verbatim>\<open>--key=value\<close>. The code tests
  \<^verbatim>\<open>v == True\<close>, which also holds for the integer \<^verbatim>\<open>1\<close>: the option
  \<^verbatim>\<open>{"repeats": 1}\<close> is rendered as the bare flag \<^verbatim>\<open>--repeats\<close>, not as
  \<^verbatim>\<open>--repeats=1\<close>, while \<^verbatim>\<open>{"repeats": 2}\<close> is rendered as \<^verbatim>\<open>--repeats=2\<close>.
\<close>

theorem option_args_integer_one:
  "option_args [(''repeats'', PyInt 1)] = '' --repeats''
   \<and> option_args [(''repeats'', PyInt 2)] = '' --repeats=2''"
  by (simp add: render_option_def str_nat_examples)

subsection \<open>Unwrapping the results\<close>

lemma bet_return_single: "bet_return [x] = x"
  by (simp add: bet_return_def)

lemma flirt_return_single: "flirt_return [x] = OList [x]"
  by (simp add: flirt_return_def)

lemma bet_single_image:
  "fst (bet demo_env demo_wsp demo_world (InImage (demo_image ''in'')) no_kwargs) =
     Inr (OImage (demo_image ''in_bet''))"
  by (simp add: bet_def bet_return_def input_img_def get_std_def no_kwargs_def unpack2_def
      run_def run_body_def demo_env_def demo_wsp_def demo_world_def demo_popen_def
      demo_load_def demo_image_def literal_match_def get_return_files_def return_files_def
      path_join_def isspace_def Let_def)

text \<open>
  Claim C9 says that every wrapper returns a single resulting image bare, and
  names \<^verbatim>\<open>flirt\<close> without matrix outputs. \<^verbatim>\<open>bet\<close> ends with
  \<^verbatim>\<open>if len(ret) == 1: return ret[0]\<close>; \<^verbatim>\<open>flirt\<close> ends with
  \<^verbatim>\<open>if len(ret) == 1: return ret\<close> and returns the list that holds the image.
  Here \<^verbatim>\<open>flirt\<close> is called with two images and no keyword argument, in a
  workspace where the program writes the registered image.
\<close>

theorem flirt_single_image_in_list:
  "fst (flirt demo_env demo_wsp demo_world (InImage (demo_image ''in'')) (InImage (demo_image ''ref''))
          no_kwargs) =
     Inr (OList [OImage (demo_image ''in_reg'')])"
  by (simp add: flirt_def flirt_result_def flirt_return_def getitem0_def input_img_def get_std_def
      no_kwargs_def unpack2_def
      run_def run_body_def demo_env_def demo_wsp_def demo_world_def demo_popen_def
      demo_load_def demo_image_def literal_match_def get_return_files_def return_files_def
      path_join_def isspace_def Let_def)

text \<open>So the result of this call is not the bare image that \<^verbatim>\<open>bet\<close> would return.\<close>

theorem flirt_single_image_not_bare:
  "fst (flirt demo_env demo_wsp demo_world (InImage (demo_image ''in'')) (InImage (demo_image ''ref''))
          no_kwargs) \<noteq>
     Inr (OImage (demo_image ''in_reg''))"
  using flirt_single_image_in_list by simp

section \<open>Label durations and inversion times\<close>

lemma fold_min_max_eq:
  fixes a :: "'n::linorder"
  shows "fold min xs a = fold max xs a \<longleftrightarrow> (\<forall>x \<in> set (a # xs). \<forall>y \<in> set (a # xs). x = y)"
proof -
  let ?A = "set (a # xs)"
  have mn: "fold min xs a = Min ?A" by (rule Min.set_eq_fold [symmetric])
  have mx: "fold max xs a = Max ?A" by (rule Max.set_eq_fold [symmetric])
  have fin: "finite ?A" "?A \<noteq> {}" by simp_all
  show ?thesis
  proof
    assume eq: "fold min xs a = fold max xs a"
    have "x = Min ?A" if "x \<in> ?A" for x
    proof -
      have lo: "Min ?A \<le> x" by (rule Min_le [OF fin(1) that])
      have hi: "x \<le> Max ?A" by (rule Max_ge [OF fin(1) that])
      have "Min ?A = Max ?A" using eq mn mx by (simp only:)
      with lo hi show ?thesis by (simp only: order.antisym)
    qed
    then show "\<forall>x \<in> ?A. \<forall>y \<in> ?A. x = y" by metis
  next
    assume all: "\<forall>x \<in> ?A. \<forall>y \<in> ?A. x = y"
    have "Min ?A \<in> ?A" by (rule Min_in [OF fin])
    moreover have "Max ?A \<in> ?A" by (rule Max_in [OF fin])
    ultimately have "Min ?A = Max ?A" using all by blast
    then show "fold min xs a = fold max xs a" using mn mx by (simp only:)
  qed
qed

lemma tau_options_other:
  "(\<forall>i < length ts. k \<noteq> ''tau'' @ str_nat (idx + i + 1)) \<Longrightarrow>
   map_of (tau_options str_n idx ts opts) k = map_of opts k"
proof (induction ts arbitrary: idx opts)
  case Nil
  then show ?case by simp
next
  case (Cons t ts)
  have "k \<noteq> ''tau'' @ str_nat (idx + 1)" using Cons.prems by force
  moreover have "\<forall>i < length ts. k \<noteq> ''tau'' @ str_nat (idx + 1 + i + 1)"
    using Cons.prems by force
  ultimately show ?case using Cons.IH [of "idx + 1"] by (simp add: update_conv')
qed

lemma tau_options_index:
  "i < length ts \<Longrightarrow>
   map_of (tau_options str_n idx ts opts) (''tau'' @ str_nat (idx + i + 1)) =
     Some (Scalar (PyStr (str_n (ts ! i))))"
proof (induction ts arbitrary: idx opts i)
  case Nil
  then show ?case by simp
next
  case (Cons t ts)
  show ?case
  proof (cases i)
    case 0
    have "\<forall>j < length ts. ''tau'' @ str_nat (idx + 1) \<noteq> ''tau'' @ str_nat (idx + 1 + j + 1)"
      by (simp add: str_nat_inj)
    then show ?thesis
      using 0 tau_options_other [of ts "''tau'' @ str_nat (idx + 1)" "idx + 1"]
      by (simp add: update_conv')
  next
    case (Suc j)
    then have "j < length ts" using Cons.prems by simp
    then show ?thesis using Cons.IH [of j "idx + 1"] Suc by simp
  qed
qed

lemma ti_options_ok:
  assumes "c \<longrightarrow> idx + length tis \<le> length ts"
  shows "\<exists>opts'. ti_options str_n c ts idx tis opts = Inr opts'
     \<and> (\<forall>i < length tis. map_of opts' (''ti'' @ str_nat (idx + i + 1)) =
           Some (Scalar (PyStr (str_n (if c then tis ! i + ts ! (idx + i) else tis ! i)))))
     \<and> (\<forall>k. (\<forall>i < length tis. k \<noteq> ''ti'' @ str_nat (idx + i + 1)) \<longrightarrow> map_of opts' k = map_of opts k)"
  using assms
proof (induction tis arbitrary: idx opts)
  case Nil
  then show ?case by simp
next
  case (Cons ti tis)
  let ?v = "Scalar (PyStr (str_n (if c then ti + ts ! idx else ti)))"
  let ?o1 = "AList.update (''ti'' @ str_nat (idx + 1)) ?v opts"
  have step: "ti_options str_n c ts idx (ti # tis) opts = ti_options str_n c ts (idx + 1) tis ?o1"
    using Cons.prems by auto
  have "c \<longrightarrow> idx + 1 + length tis \<le> length ts" using Cons.prems by simp
  from Cons.IH [OF this, of ?o1] obtain opts' where
    r: "ti_options str_n c ts (idx + 1) tis ?o1 = Inr opts'"
    and ix: "\<forall>i < length tis. map_of opts' (''ti'' @ str_nat (idx + 1 + i + 1)) =
           Some (Scalar (PyStr (str_n (if c then tis ! i + ts ! (idx + 1 + i) else tis ! i))))"
    and ot: "\<forall>k. (\<forall>i < length tis. k \<noteq> ''ti'' @ str_nat (idx + 1 + i + 1)) \<longrightarrow>
                 map_of opts' k = map_of ?o1 k"
    by blast
  have first: "map_of opts' (''ti'' @ str_nat (idx + 1)) = Some ?v"
  proof -
    have "\<forall>i < length tis. ''ti'' @ str_nat (idx + 1) \<noteq> ''ti'' @ str_nat (idx + 1 + i + 1)"
      by (simp add: str_nat_inj)
    then have "map_of opts' (''ti'' @ str_nat (idx + 1)) = map_of ?o1 (''ti'' @ str_nat (idx + 1))"
      using ot by blast
    then show ?thesis by (simp add: update_conv')
  qed
  have idx_all: "map_of opts' (''ti'' @ str_nat (idx + i + 1)) =
           Some (Scalar (PyStr (str_n (if c then (ti # tis) ! i + ts ! (idx + i) else (ti # tis) ! i))))"
    if "i < length (ti # tis)" for i
  proof (cases i)
    case 0
    then show ?thesis using first by simp
  next
    case (Suc j)
    then have "j < length tis" using that by simp
    then show ?thesis using ix Suc by simp
  qed
  have other: "map_of opts' k = map_of opts k"
    if "\<forall>i < length (ti # tis). k \<noteq> ''ti'' @ str_nat (idx + i + 1)" for k
  proof -
    have k0: "k \<noteq> ''ti'' @ str_nat (idx + 1)" using that by force
    have "\<forall>i < length tis. k \<noteq> ''ti'' @ str_nat (idx + 1 + i + 1)" using that by force
    then have "map_of opts' k = map_of ?o1 k" using ot by blast
    then show ?thesis using k0 by (simp add: update_conv')
  qed
  show ?case
    unfolding step using r idx_all other by blast
qed


lemma tau_key_facts:
  "''tau'' \<noteq> ''ti'' @ s" "''tau'' @ r \<noteq> ''ti'' @ s" "''tau'' @ str_nat n \<noteq> ''tau''"
  "''tau'' \<noteq> ''tau'' @ str_nat n" "''casl'' \<noteq> ''tau'' @ r" "''casl'' \<noteq> ''ti'' @ r"
  by simp_all


text \<open>
  Where the derivation raises: a structure without \<^verbatim>\<open>casl\<close>, and under
  continuous labeling one without \<^verbatim>\<open>taus\<close>, with no label duration, or with
  fewer label durations than inversion times.
\<close>

lemma ti_options_index_error:
  "idx \<le> length ts \<Longrightarrow> length ts < idx + length tis \<Longrightarrow>
   ti_options str_n True ts idx tis opts = Inl IndexError"
  by (induction tis arbitrary: idx opts) auto

lemma basil_options_failures:
  "casl struc = None \<Longrightarrow> basil_options str_n struc tis opts = Inl (KeyError ''casl'')"
  "casl struc = Some True \<Longrightarrow> taus struc = None \<Longrightarrow>
     basil_options str_n struc tis opts = Inl (KeyError ''taus'')"
  "casl struc = Some True \<Longrightarrow> taus struc = Some [] \<Longrightarrow>
     basil_options str_n struc tis opts = Inl (ValueError ''min() arg is an empty sequence'')"
  "casl struc = Some True \<Longrightarrow> taus struc = Some ts \<Longrightarrow> ts \<noteq> [] \<Longrightarrow> length ts < length tis \<Longrightarrow>
     basil_options str_n struc tis opts = Inl IndexError"
  by (auto simp: basil_options_def Let_def ti_options_index_error split: list.splits)


text \<open>
  Claim C5. Let the structure hold \<^verbatim>\<open>casl\<close>, and under continuous labeling a
  non-empty list \<^verbatim>\<open>taus\<close> with a label duration for every inversion time. Then
  the options are derived without an error and, under continuous labeling: if
  all label durations are equal, the one option \<^verbatim>\<open>tau\<close> is set to
  \<^verbatim>\<open>str(taus[0])\<close> and no indexed option is touched; otherwise the option
  \<^verbatim>\<open>tau<i+1>\<close> is set to \<^verbatim>\<open>str(taus[i])\<close> for every index and \<^verbatim>\<open>tau\<close> is not
  touched. For every index \<open>i\<close> of an inversion time the option \<^verbatim>\<open>ti<i+1>\<close> is
  \<^verbatim>\<open>str(tis[i] + taus[i])\<close> under continuous labeling and \<^verbatim>\<open>str(tis[i])\<close>
  otherwise.
\<close>

theorem basil_options_tau_ti:
  fixes str_n :: "'n::{linorder,plus} \<Rightarrow> string"
  assumes "casl struc = Some c"
      and "c \<Longrightarrow> taus struc = Some ts \<and> ts \<noteq> [] \<and> length tis \<le> length ts"
  shows "\<exists>opts'. basil_options str_n struc tis opts = Inr opts'
     \<and> (c \<and> (\<forall>x \<in> set ts. \<forall>y \<in> set ts. x = y) \<longrightarrow>
          map_of opts' ''tau'' = Some (Scalar (PyStr (str_n (ts ! 0))))
          \<and> (\<forall>i. map_of opts' (''tau'' @ str_nat (i + 1)) = map_of opts (''tau'' @ str_nat (i + 1))))
     \<and> (c \<and> \<not> (\<forall>x \<in> set ts. \<forall>y \<in> set ts. x = y) \<longrightarrow>
          (\<forall>i < length ts. map_of opts' (''tau'' @ str_nat (i + 1)) =
                            Some (Scalar (PyStr (str_n (ts ! i)))))
          \<and> map_of opts' ''tau'' = map_of opts ''tau'')
     \<and> (\<forall>i < length tis. map_of opts' (''ti'' @ str_nat (i + 1)) =
           Some (Scalar (PyStr (str_n (if c then tis ! i + ts ! i else tis ! i)))))"
proof (cases c)
  case False
  have "False \<longrightarrow> 0 + length tis \<le> length ([]::'n list)" by simp
  from ti_options_ok [OF this, of str_n opts] obtain opts' where
    r: "ti_options str_n False [] 0 tis opts = Inr opts'"
    and ix: "\<forall>i < length tis. map_of opts' (''ti'' @ str_nat (0 + i + 1)) =
               Some (Scalar (PyStr (str_n (if False then tis ! i + [] ! (0 + i) else tis ! i))))"
    by blast
  have "basil_options str_n struc tis opts = Inr opts'"
    using assms(1) False r by (simp add: basil_options_def)
  then show ?thesis using False ix by simp
next
  case True
  with assms(2) have ts: "taus struc = Some ts" "ts \<noteq> []" "length tis \<le> length ts" by simp_all
  then obtain t rest where tr: "ts = t # rest" by (cases ts) simp_all
  let ?same = "\<forall>x \<in> set ts. \<forall>y \<in> set ts. x = y"
  let ?o1 = "AList.update ''casl'' (Scalar (PyStr [])) opts"
  let ?o2 = "if ?same then AList.update ''tau'' (Scalar (PyStr (str_n (ts ! 0)))) ?o1
             else tau_options str_n 0 ts ?o1"
  have same: "fold min rest t = fold max rest t \<longleftrightarrow> ?same"
    unfolding tr by (rule fold_min_max_eq)
  have bo: "basil_options str_n struc tis opts = ti_options str_n True ts 0 tis ?o2"
    using assms(1) True ts(1) same by (simp add: basil_options_def tr Let_def)
  have "True \<longrightarrow> 0 + length tis \<le> length ts" using ts(3) by simp
  from ti_options_ok [OF this, of str_n ?o2] obtain opts' where
    r: "ti_options str_n True ts 0 tis ?o2 = Inr opts'"
    and ix: "\<forall>i < length tis. map_of opts' (''ti'' @ str_nat (0 + i + 1)) =
               Some (Scalar (PyStr (str_n (if True then tis ! i + ts ! (0 + i) else tis ! i))))"
    and ot: "\<forall>k. (\<forall>i < length tis. k \<noteq> ''ti'' @ str_nat (0 + i + 1)) \<longrightarrow>
                 map_of opts' k = map_of ?o2 k"
    by blast
  have keep_tau: "map_of opts' ''tau'' = map_of ?o2 ''tau''"
    using ot by (simp add: tau_key_facts)
  have keep_taui: "map_of opts' (''tau'' @ str_nat n) = map_of ?o2 (''tau'' @ str_nat n)" for n
    using ot by (simp add: tau_key_facts)
  have eq_case: "map_of opts' ''tau'' = Some (Scalar (PyStr (str_n (ts ! 0))))
      \<and> (\<forall>i. map_of opts' (''tau'' @ str_nat (i + 1)) = map_of opts (''tau'' @ str_nat (i + 1)))"
    if sm: ?same
  proof -
    have o2: "?o2 = AList.update ''tau'' (Scalar (PyStr (str_n (ts ! 0)))) ?o1"
      using sm by (rule if_P)
    show ?thesis
      using keep_tau keep_taui unfolding o2 by (simp add: update_conv')
  qed
  have ne_case: "(\<forall>i < length ts. map_of opts' (''tau'' @ str_nat (i + 1)) =
                            Some (Scalar (PyStr (str_n (ts ! i)))))
          \<and> map_of opts' ''tau'' = map_of opts ''tau''"
    if ns: "\<not> ?same"
  proof
    have o2: "?o2 = tau_options str_n 0 ts ?o1" using ns by (rule if_not_P)
    show "\<forall>i < length ts. map_of opts' (''tau'' @ str_nat (i + 1)) =
                            Some (Scalar (PyStr (str_n (ts ! i))))"
      using keep_taui tau_options_index [of _ ts str_n 0 ?o1] unfolding o2 by simp
    have "\<forall>i < length ts. ''tau'' \<noteq> ''tau'' @ str_nat (0 + i + 1)"
      by simp
    from tau_options_other [OF this, of str_n ?o1]
    show "map_of opts' ''tau'' = map_of opts ''tau''"
      using keep_tau unfolding o2 by (simp add: update_conv')
  qed
  show ?thesis
    unfolding bo using r ix eq_case ne_case True by simp
qed


text \<open>
  The theorem at label durations that differ, in tenths of a second: 1.4 and 1.6
  with the delays 1.5 and 2.0.
\<close>

theorem basil_options_tau_ti_witness:
  "\<exists>opts'. basil_options str_int \<lparr>casl = Some True, taus = Some [14, 16]\<rparr> [15, 20] [] = Inr opts'
     \<and> map_of opts' ''tau1'' = Some (Scalar (PyStr ''14''))
     \<and> map_of opts' ''tau2'' = Some (Scalar (PyStr ''16''))
     \<and> map_of opts' ''tau'' = None
     \<and> map_of opts' ''ti1'' = Some (Scalar (PyStr ''29''))
     \<and> map_of opts' ''ti2'' = Some (Scalar (PyStr ''36''))"
proof -
  have c: "casl \<lparr>casl = Some True, taus = Some [14, 16 :: int]\<rparr> = Some True" by simp
  have t: "True \<Longrightarrow> taus \<lparr>casl = Some True, taus = Some [14, 16 :: int]\<rparr> = Some [14, 16]
      \<and> [14, 16 :: int] \<noteq> [] \<and> length [15, 20 :: int] \<le> length [14, 16 :: int]"
    by simp
  from basil_options_tau_ti [OF c t, of str_int "[]"] obtain opts' where
    r: "basil_options str_int \<lparr>casl = Some True, taus = Some [14, 16]\<rparr> [15, 20] [] = Inr opts'"
    and tau: "\<forall>i < length [14, 16 :: int]. map_of opts' (''tau'' @ str_nat (i + 1)) =
                Some (Scalar (PyStr (str_int ([14, 16] ! i))))"
    and one: "map_of opts' ''tau'' = map_of ([] :: options) ''tau''"
    and ti: "\<forall>i < length [15, 20 :: int]. map_of opts' (''ti'' @ str_nat (i + 1)) =
                Some (Scalar (PyStr (str_int (if True then [15, 20] ! i + [14, 16] ! i else [15, 20] ! i))))"
    by auto
  from tau [rule_format, of 0] tau [rule_format, of 1] ti [rule_format, of 0] ti [rule_format, of 1]
    r one
  show ?thesis by (simp add: str_nat_examples)
qed

section \<open>The step sequencer\<close>

subsection \<open>The options of a step\<close>

lemma map_of_dispatch_options_mvn:
  "map_of (dispatch_options False st) ''save-mvn'' = Some (Scalar (PyStr []))"
  by (simp add: dispatch_options_def Let_def update_conv' split: option.split)

lemma map_of_dispatch_options_nonfinal:
  "k \<in> set summary_outputs \<Longrightarrow> map_of (dispatch_options False st) k = map_of (step_options st) k"
  by (auto simp: dispatch_options_def summary_outputs_def Let_def update_conv' split: option.split)

lemma map_of_dispatch_options_final:
  "k \<in> set summary_outputs \<Longrightarrow> map_of (dispatch_options True st) k = Some (Scalar (PyStr []))"
  by (auto simp: dispatch_options_def summary_outputs_def Let_def update_conv' split: option.split)

lemma dispatched_append: "dispatched (xs @ ys) = dispatched xs @ dispatched ys"
  by (induction xs rule: dispatched.induct) simp_all


lemma next_step_start:
  assumes "status b = RUNNING" "step_num b < length (steps b)"
  shows "status (next_step b) = RUNNING"
    and "steps (next_step b) = steps b"
    and "step_num (next_step b) = Suc (step_num b)"
    and "ivm_data (next_step b) = ivm_data b"
    and "exception (next_step b) = exception b"
    and "trace (next_step b) = trace b @
           [SigStep (step_desc (steps b ! step_num b)),
            FabberExecute (dispatch_options (Suc (step_num b) = length (steps b)) (steps b ! step_num b))]"
  using assms by (simp_all add: next_step_def start_fabber_def Let_def)

lemma next_step_complete:
  assumes "status b = RUNNING" "\<not> step_num b < length (steps b)"
  shows "status (next_step b) = SUCCEEDED"
    and "''finalMVN'' \<notin> set (ivm_data (next_step b))"
    and "exception (next_step b) = exception b"
    and "trace (next_step b) = trace b @
           (if ''finalMVN'' \<in> set (ivm_data b) then [IvmDeleteData ''finalMVN''] else []) @
           [SigFinished SUCCEEDED (log_text (next_step b)) (exception (next_step b))]"
  using assms by (simp_all add: next_step_def Let_def)

lemma fabber_finished_success:
  assumes "status b = RUNNING"
  shows "fabber_finished SUCCEEDED lg ex b =
           next_step (b\<lparr>log_text := log_text b @ lg @ [CHR 0x0A, CHR 0x0A]\<rparr>)"
  using assms by (simp add: fabber_finished_def Let_def)

lemma drive_successes:
  assumes "status b = RUNNING"
      and "step_num b + length rs = length (steps b)"
      and "\<forall>r \<in> set rs. out_status r = SUCCEEDED"
  shows "status (drive rs (next_step b)) = SUCCEEDED
       \<and> ''finalMVN'' \<notin> set (ivm_data (drive rs (next_step b)))
       \<and> dispatched (trace (drive rs (next_step b))) =
           dispatched (trace b) @
           map (\<lambda>i. dispatch_options (Suc i = length (steps b)) (steps b ! i))
               [step_num b ..< length (steps b)]
       \<and> (\<exists>evs. trace (drive rs (next_step b)) =
                   trace b @ evs @
                   (if ''finalMVN'' \<in> set (ivm_data b) \<union> (\<Union>r \<in> set rs. set (out_data r))
                    then [IvmDeleteData ''finalMVN''] else []) @
                   [SigFinished SUCCEEDED (log_text (drive rs (next_step b)))
                      (exception (drive rs (next_step b)))]
                \<and> list_all step_event evs)"
  using assms
proof (induction rs arbitrary: b)
  case Nil
  then have fin: "\<not> step_num b < length (steps b)" by simp
  show ?case
    using next_step_complete [OF Nil.prems(1) fin] Nil.prems(2)
    by (auto simp: dispatched_append)
next
  case (Cons r rs)
  let ?k = "step_num b"
  let ?b1 = "next_step b"
  let ?b2 = "(?b1\<lparr>ivm_data := List.union (ivm_data ?b1) (out_data r)\<rparr>)
               \<lparr>log_text := log_text ?b1 @ out_log r @ [CHR 0x0A, CHR 0x0A]\<rparr>"
  from Cons.prems have lt: "?k < length (steps b)" by simp
  note st = next_step_start [OF Cons.prems(1) lt]
  have succ: "out_status r = SUCCEEDED" using Cons.prems(3) by simp
  have drv: "drive (r # rs) ?b1 = drive rs (next_step ?b2)"
    using st(1) succ by (simp add: fabber_finished_success)
  have run2: "status ?b2 = RUNNING" using st(1) by simp
  have len2: "step_num ?b2 + length rs = length (steps ?b2)"
    using st(2,3) Cons.prems(2) by simp
  have all2: "\<forall>r \<in> set rs. out_status r = SUCCEEDED" using Cons.prems(3) by simp
  note ih = Cons.IH [OF run2 len2 all2]
  have tr2: "trace ?b2 = trace b @ [SigStep (step_desc (steps b ! ?k)),
               FabberExecute (dispatch_options (Suc ?k = length (steps b)) (steps b ! ?k))]"
    using st(6) by simp
  have steps2: "steps ?b2 = steps b" and num2: "step_num ?b2 = Suc ?k"
    and data2: "set (ivm_data ?b2) = set (ivm_data b) \<union> set (out_data r)"
    using st(2,3,4) by simp_all
  have upt: "[?k ..< length (steps b)] = ?k # [Suc ?k ..< length (steps b)]"
    using lt by (simp add: upt_conv_Cons)
  from ih obtain evs where
    ev: "trace (drive rs (next_step ?b2)) =
           trace ?b2 @ evs @
           (if ''finalMVN'' \<in> set (ivm_data ?b2) \<union> (\<Union>r \<in> set rs. set (out_data r))
            then [IvmDeleteData ''finalMVN''] else []) @
           [SigFinished SUCCEEDED (log_text (drive rs (next_step ?b2)))
              (exception (drive rs (next_step ?b2)))]"
    and evs: "list_all step_event evs"
    by blast
  have "status (drive (r # rs) ?b1) = SUCCEEDED"
    and "''finalMVN'' \<notin> set (ivm_data (drive (r # rs) ?b1))"
    using ih drv by simp_all
  moreover have "dispatched (trace (drive (r # rs) ?b1)) =
      dispatched (trace b) @
      map (\<lambda>i. dispatch_options (Suc i = length (steps b)) (steps b ! i)) [?k ..< length (steps b)]"
    using ih unfolding drv tr2 steps2 num2 by (simp add: dispatched_append upt)
  moreover have "\<exists>evs'. trace (drive (r # rs) ?b1) =
      trace b @ evs' @
      (if ''finalMVN'' \<in> set (ivm_data b) \<union> (\<Union>r \<in> set (r # rs). set (out_data r))
       then [IvmDeleteData ''finalMVN''] else []) @
      [SigFinished SUCCEEDED (log_text (drive (r # rs) ?b1)) (exception (drive (r # rs) ?b1))]
      \<and> list_all step_event evs'"
  proof (intro exI conjI)
    show "trace (drive (r # rs) ?b1) =
      trace b @ ([SigStep (step_desc (steps b ! ?k)),
               FabberExecute (dispatch_options (Suc ?k = length (steps b)) (steps b ! ?k))] @ evs) @
      (if ''finalMVN'' \<in> set (ivm_data b) \<union> (\<Union>r \<in> set (r # rs). set (out_data r))
       then [IvmDeleteData ''finalMVN''] else []) @
      [SigFinished SUCCEEDED (log_text (drive (r # rs) ?b1)) (exception (drive (r # rs) ?b1))]"
      unfolding drv ev tr2 data2 by (simp add: Un_assoc)
    show "list_all step_event ([SigStep (step_desc (steps b ! ?k)),
               FabberExecute (dispatch_options (Suc ?k = length (steps b)) (steps b ! ?k))] @ evs)"
      using evs by (simp add: step_event_def)
  qed
  ultimately show ?case by blast
qed


subsection \<open>The fits of a run\<close>

lemma dispatch_plan_nth:
  "i < length sts \<Longrightarrow> dispatch_plan sts ! i = dispatch_options (Suc i = length sts) (sts ! i)"
  by (simp add: dispatch_plan_def)

lemma length_dispatch_plan [simp]: "length (dispatch_plan sts) = length sts"
  by (simp add: dispatch_plan_def)

lemma in_order_next_step:
  assumes "in_order d0 sts b"
  shows "in_order d0 sts (next_step b)"
proof (cases "status b = RUNNING")
  case False
  then show ?thesis using assms by (simp add: next_step_def)
next
  case True
  with assms obtain k where k: "k \<le> length sts"
    "dispatched (trace b) = d0 @ take k (dispatch_plan sts)" "steps b = sts" "step_num b = k"
    by (auto simp: in_order_def)
  show ?thesis
  proof (cases "step_num b < length (steps b)")
    case lt: True
    note st = next_step_start [OF True lt]
    have "take (Suc k) (dispatch_plan sts) =
        take k (dispatch_plan sts) @ [dispatch_options (Suc k = length sts) (sts ! k)]"
      using lt k(3,4) by (simp add: take_Suc_conv_app_nth dispatch_plan_nth)
    then have "dispatched (trace (next_step b)) = d0 @ take (Suc k) (dispatch_plan sts)"
      using st(6) k by (simp add: dispatched_append)
    moreover have "Suc k \<le> length sts" using lt k(3,4) by simp
    ultimately show ?thesis
      unfolding in_order_def using st(2,3) k(3,4) by blast
  next
    case ge: False
    note fin = next_step_complete [OF True ge]
    have "dispatched (trace (next_step b)) = d0 @ take k (dispatch_plan sts)"
      using fin(4) k(2) by (simp add: dispatched_append)
    then show ?thesis
      unfolding in_order_def using fin(1) k(1) by auto
  qed
qed

lemma in_order_frame:
  "in_order d0 sts b \<Longrightarrow> in_order d0 sts (b\<lparr>ivm_data := d, log_text := l\<rparr>)"
  by (simp add: in_order_def)

lemma in_order_fabber_finished:
  assumes "in_order d0 sts b"
  shows "in_order d0 sts (fabber_finished st lg ex b)"
proof (cases "status b = RUNNING")
  case False
  then show ?thesis using assms by (simp add: fabber_finished_def)
next
  case True
  show ?thesis
  proof (cases "st = SUCCEEDED")
    case s: True
    have "in_order d0 sts (b\<lparr>log_text := log_text b @ lg @ [CHR 0x0A, CHR 0x0A]\<rparr>)"
      using assms by (simp add: in_order_def)
    then show ?thesis
      using True s by (simp add: fabber_finished_success in_order_next_step)
  next
    case False
    then show ?thesis
      using assms True by (auto simp: fabber_finished_def in_order_def Let_def dispatched_append)
  qed
qed

lemma in_order_drive:
  "in_order d0 sts b \<Longrightarrow> in_order d0 sts (drive rs b)"
proof (induction rs arbitrary: b)
  case Nil
  then show ?case by simp
next
  case (Cons r rs)
  have "in_order d0 sts (b\<lparr>ivm_data := List.union (ivm_data b) (out_data r)\<rparr>)"
    using Cons.prems by (simp add: in_order_def)
  then show ?case using Cons.IH by (simp add: in_order_fabber_finished)
qed

lemma in_order_start_pipeline:
  "in_order (dispatched (trace b)) sts (start_pipeline sts lg b)"
  unfolding start_pipeline_def
  by (rule in_order_next_step) (simp add: in_order_def)

lemma dispatch_plan_nonfinal:
  assumes "Suc i < length sts"
  shows "map_of (dispatch_plan sts ! i) ''save-mvn'' = Some (Scalar (PyStr []))"
    and "k \<in> set summary_outputs \<Longrightarrow>
         map_of (dispatch_plan sts ! i) k = map_of (step_options (sts ! i)) k"
  using assms
  by (simp_all add: dispatch_plan_nth map_of_dispatch_options_mvn map_of_dispatch_options_nonfinal)

lemma dispatch_plan_final:
  assumes "sts \<noteq> []" "k \<in> set summary_outputs"
  shows "map_of (last (dispatch_plan sts)) k = Some (Scalar (PyStr []))"
proof -
  have "last (dispatch_plan sts) = dispatch_plan sts ! (length sts - 1)"
    using assms(1) by (simp add: last_conv_nth dispatch_plan_def)
  also have "\<dots> = dispatch_options True (sts ! (length sts - 1))"
    using assms(1) by (simp add: dispatch_plan_nth)
  finally show ?thesis using assms(2) by (simp add: map_of_dispatch_options_final)
qed


text \<open>
  Claim C3, as amended. In a run over \<open>N\<close> steps, whatever the fits report, the
  fits started are the first \<open>k\<close> of the plan of the run, in the order of the
  steps, for some \<open>k\<close> up to \<open>N\<close>. In the plan the options of each of the first
  \<open>N - 1\<close> steps hold \<^verbatim>\<open>save-mvn\<close>, and hold \<^verbatim>\<open>save-mean\<close>, \<^verbatim>\<open>save-std\<close>
  or \<^verbatim>\<open>save-model-fit\<close> exactly as the step's own options do: the sequencer
  adds none of them. The options of step \<open>N\<close> hold all three. When every fit
  succeeds, all \<open>N\<close> fits are started, the status ends as SUCCEEDED, the data
  set \<^verbatim>\<open>finalMVN\<close> is not in the store, and the events of the run end with the
  deletion of \<^verbatim>\<open>finalMVN\<close>, if it was in the store, followed by the completion
  signal.
\<close>

theorem pipeline_dispatch:
  "(\<exists>k \<le> length sts. dispatched (trace (drive rs (start_pipeline sts lg b))) =
        dispatched (trace b) @ take k (dispatch_plan sts))
   \<and> (\<forall>i. Suc i < length sts \<longrightarrow>
          map_of (dispatch_plan sts ! i) ''save-mvn'' = Some (Scalar (PyStr []))
          \<and> (\<forall>k \<in> set summary_outputs.
                map_of (dispatch_plan sts ! i) k = map_of (step_options (sts ! i)) k))
   \<and> (sts \<noteq> [] \<longrightarrow>
          (\<forall>k \<in> set summary_outputs. map_of (last (dispatch_plan sts)) k = Some (Scalar (PyStr []))))
   \<and> (length rs = length sts \<and> (\<forall>r \<in> set rs. out_status r = SUCCEEDED) \<longrightarrow>
          dispatched (trace (drive rs (start_pipeline sts lg b))) =
            dispatched (trace b) @ dispatch_plan sts
        \<and> status (drive rs (start_pipeline sts lg b)) = SUCCEEDED
        \<and> ''finalMVN'' \<notin> set (ivm_data (drive rs (start_pipeline sts lg b)))
        \<and> (\<exists>evs. trace (drive rs (start_pipeline sts lg b)) =
                   trace b @ evs @
                   (if ''finalMVN'' \<in> set (ivm_data b) \<union> (\<Union>r \<in> set rs. set (out_data r))
                    then [IvmDeleteData ''finalMVN''] else []) @
                   [SigFinished SUCCEEDED (log_text (drive rs (start_pipeline sts lg b)))
                      (exception (drive rs (start_pipeline sts lg b)))]
                \<and> list_all step_event evs))"
proof (intro conjI allI impI ballI)
  show "\<exists>k \<le> length sts. dispatched (trace (drive rs (start_pipeline sts lg b))) =
        dispatched (trace b) @ take k (dispatch_plan sts)"
  proof -
    have "in_order (dispatched (trace b)) sts (drive rs (start_pipeline sts lg b))"
      by (rule in_order_drive [OF in_order_start_pipeline])
    then show ?thesis by (auto simp: in_order_def)
  qed
next
  fix i assume "Suc i < length sts"
  then show "map_of (dispatch_plan sts ! i) ''save-mvn'' = Some (Scalar (PyStr []))"
    by (rule dispatch_plan_nonfinal)
next
  fix i k assume "Suc i < length sts" "k \<in> set summary_outputs"
  then show "map_of (dispatch_plan sts ! i) k = map_of (step_options (sts ! i)) k"
    by (rule dispatch_plan_nonfinal)
next
  fix k assume "sts \<noteq> []" "k \<in> set summary_outputs"
  then show "map_of (last (dispatch_plan sts)) k = Some (Scalar (PyStr []))"
    by (rule dispatch_plan_final)
next
  assume a: "length rs = length sts \<and> (\<forall>r \<in> set rs. out_status r = SUCCEEDED)"
  let ?b = "b\<lparr>steps := sts, log_text := lg, step_num := 0, status := RUNNING\<rparr>"
  have sp: "start_pipeline sts lg b = next_step ?b" by (simp add: start_pipeline_def)
  have 1: "status ?b = RUNNING" by simp
  have 2: "step_num ?b + length rs = length (steps ?b)" using a by simp
  have 3: "\<forall>r \<in> set rs. out_status r = SUCCEEDED" using a by simp
  note d = drive_successes [OF 1 2 3]
  show "dispatched (trace (drive rs (start_pipeline sts lg b))) =
            dispatched (trace b) @ dispatch_plan sts"
    using d unfolding sp by (simp add: dispatch_plan_def)
  show "status (drive rs (start_pipeline sts lg b)) = SUCCEEDED"
    using d unfolding sp by simp
  show "''finalMVN'' \<notin> set (ivm_data (drive rs (start_pipeline sts lg b)))"
    using d unfolding sp by simp
  show "\<exists>evs. trace (drive rs (start_pipeline sts lg b)) =
                   trace b @ evs @
                   (if ''finalMVN'' \<in> set (ivm_data b) \<union> (\<Union>r \<in> set rs. set (out_data r))
                    then [IvmDeleteData ''finalMVN''] else []) @
                   [SigFinished SUCCEEDED (log_text (drive rs (start_pipeline sts lg b)))
                      (exception (drive rs (start_pipeline sts lg b)))]
                \<and> list_all step_event evs"
    using d unfolding sp by simp
qed


text \<open>The theorem at a run of two steps whose fits succeed.\<close>

theorem pipeline_dispatch_witness:
  "length [fit_ok, fit_ok] = length [demo_step1, demo_step2]
   \<and> status (drive [fit_ok, fit_ok] (start_pipeline [demo_step1, demo_step2] [] idle)) = SUCCEEDED
   \<and> ''finalMVN'' \<notin> set (ivm_data (drive [fit_ok, fit_ok] (start_pipeline [demo_step1, demo_step2] [] idle)))
   \<and> dispatched (trace (drive [fit_ok, fit_ok] (start_pipeline [demo_step1, demo_step2] [] idle))) =
       dispatch_plan [demo_step1, demo_step2]
   \<and> map_of (dispatch_plan [demo_step1, demo_step2] ! 0) ''save-mvn'' = Some (Scalar (PyStr []))
   \<and> map_of (last (dispatch_plan [demo_step1, demo_step2])) ''save-model-fit'' = Some (Scalar (PyStr []))"
  using pipeline_dispatch [of "[demo_step1, demo_step2]" "[fit_ok, fit_ok]" "[]" idle]
  by (simp add: fit_ok_def idle_def summary_outputs_def)

text \<open>
  The claim as stated fails where a step brings a summary output in its own
  options: the first of two steps asks for \<^verbatim>\<open>save-mean\<close>, and the options
  with which its fit is started hold \<^verbatim>\<open>save-mean\<close>.
\<close>

theorem pipeline_dispatch_counterexample:
  "map_of (dispatched (trace (drive [fit_ok, fit_ok] (start_pipeline [demo_step1, demo_step2] [] idle))) ! 0)
     ''save-mean'' = Some (Scalar (PyStr []))"
  by (simp add: start_pipeline_def next_step_def start_fabber_def fabber_finished_def
        dispatch_options_def idle_def fit_ok_def demo_step1_def demo_step2_def Let_def)

subsection \<open>Callbacks after the end\<close>

lemma deliver_not_running:
  "status b \<noteq> RUNNING \<Longrightarrow> deliver cb b = Inr b"
  by (cases cb) (simp_all add: fabber_finished_def fabber_progress_def)

lemma deliver_all_not_running:
  "status b \<noteq> RUNNING \<Longrightarrow> deliver_all cbs b = Inr b"
  by (induction cbs) (simp_all add: deliver_not_running)


text \<open>
  Claim C4. When the status is not RUNNING, a completion callback and a
  progress callback leave the state of the process as it is, with its status,
  log, step counter and events, and so does any sequence of callbacks. A
  progress callback adds an event only when the status is RUNNING.
\<close>

theorem terminal_state_ignores_callbacks:
  "(status b \<noteq> RUNNING \<longrightarrow>
      fabber_finished st lg ex b = b \<and> fabber_progress c b = Inr b \<and> deliver_all cbs b = Inr b)
   \<and> (\<forall>b'. fabber_progress c b = Inr b' \<and> trace b' \<noteq> trace b \<longrightarrow> status b = RUNNING)"
  by (auto simp: fabber_finished_def fabber_progress_def deliver_all_not_running split: if_splits)

text \<open>The theorem at a process that has failed.\<close>

theorem terminal_state_ignores_callbacks_witness:
  "status (idle\<lparr>status := FAILED\<rparr>) \<noteq> RUNNING
   \<and> fabber_finished SUCCEEDED ''late'' None (idle\<lparr>status := FAILED\<rparr>) = idle\<lparr>status := FAILED\<rparr>
   \<and> fabber_progress (1 / 2) (idle\<lparr>status := FAILED\<rparr>) = Inr (idle\<lparr>status := FAILED\<rparr>)
   \<and> deliver_all [Progress (1 / 2), Finished SUCCEEDED ''late'' None] (idle\<lparr>status := FAILED\<rparr>) =
       Inr (idle\<lparr>status := FAILED\<rparr>)"
  using terminal_state_ignores_callbacks [of "idle\<lparr>status := FAILED\<rparr>" SUCCEEDED "''late''" None "1 / 2"
          "[Progress (1 / 2), Finished SUCCEEDED ''late'' None]"]
  by simp

end
